theory Spec2Isabelle
  imports Complex_Main
begin

section \<open>The watermark component of \<open>distance-test/src/App.tsx\<close>\<close>

text \<open>
  The development embeds \<open>LpWatermark\<close>: the merge of the caller's props with
  \<open>defaultOptions\<close>, \<open>getCanvasData\<close> (with \<open>configCanvas\<close>, \<open>drawText\<close> and
  \<open>drawImage\<close>), and \<open>drawWatermark\<close> with its \<open>MutationObserver\<close> callback.

  JavaScript numbers are modelled as the reals they denote: \<open>NaN\<close> and the infinities are
  outside the model, so a number is falsy exactly when it is \<open>0\<close>. What the browser
  supplies (text metrics, the device pixel ratio, image loading, the raster export,
  \<open>parseFloat\<close>, the printing of a number that is not a small integer) is a parameter, the
  record \<open>env\<close>. So is the floating-point arithmetic that ends under \<open>Math.ceil\<close>
  (\<open>Math.sin\<close>, \<open>Math.cos\<close>, \<open>Math.PI\<close>, and the rounded sum, product and quotient of two
  doubles): there a rounding error of the last bit becomes a whole pixel. Sums and
  products that are only drawn or printed are taken over the reals.
  The canvas is the list of the drawing calls made on it; its pixels are the host's.

  A promise is modelled by what it settles to, \<open>None\<close> when it never settles. The DOM is
  modelled as far as the component acts on it: the children of the container, style
  attributes, and mutation observers with their record queues.
\<close>

subsection \<open>Numbers and strings\<close>

definition falsy :: "real \<Rightarrow> bool" where
  \<comment> \<open>\<open>!x\<close> on a number\<close>
  "falsy x = (x = 0)"

definition truthy :: "real \<Rightarrow> bool" where
  \<comment> \<open>a number used as a condition\<close>
  "truthy x = (x \<noteq> 0)"

definition orElse :: "real \<Rightarrow> real \<Rightarrow> real" where
  \<comment> \<open>\<open>x || y\<close> on numbers\<close>
  "orElse x y = (if falsy x then y else x)"

definition ceil :: "real \<Rightarrow> real" where
  \<comment> \<open>\<open>Math.ceil\<close>\<close>
  "ceil x = real_of_int \<lceil>x\<rceil>"

fun natDigits :: "nat \<Rightarrow> string" where
  "natDigits n =
     (if n < 10 then [''0123456789'' ! n]
      else natDigits (n div 10) @ [''0123456789'' ! (n mod 10)])"

definition intToString :: "int \<Rightarrow> string" where
  "intToString i = (if i < 0 then CHR ''-'' # natDigits (nat (- i)) else natDigits (nat i))"

record text_metrics =
  tm_width :: real
  fontBoundingBoxAscent :: real
  fontBoundingBoxDescent :: real

record image =
  img_src :: string
  img_width :: nat
  img_height :: nat

record pen =
  font :: string
  fillStyle :: string
  textBaseline :: string

datatype draw_op =
    Translate real real
  | Scale real real
  | Rotate real
  | FillText pen string real real real
  | DrawImage image real real real real

record canvas =
  attr_width :: string
  attr_height :: string
  style_width :: string
  style_height :: string
  ctx :: pen
  ops :: "draw_op list"

record env =
  devicePixelRatio :: real
  measureText :: "string \<Rightarrow> string \<Rightarrow> text_metrics"
  loadImage :: "string \<Rightarrow> image option"
  toDataURL :: "canvas \<Rightarrow> string"
  parseFloat :: "string \<Rightarrow> real option"
  fracToString :: "real \<Rightarrow> string"
  mathSin :: "real \<Rightarrow> real"
  mathCos :: "real \<Rightarrow> real"
  mathPI :: real
  fadd :: "real \<Rightarrow> real \<Rightarrow> real"
  fmul :: "real \<Rightarrow> real \<Rightarrow> real"
  fdiv :: "real \<Rightarrow> real \<Rightarrow> real"

definition numToString :: "env \<Rightarrow> real \<Rightarrow> string" where
  \<comment> \<open>a number inside a template literal: its decimal digits for an integer below \<open>2^53\<close>,
      where every integer is a double and prints in full; the host's shortest round-trip
      form for any other number\<close>
  "numToString e x =
     (if real_of_int \<lfloor>x\<rfloor> = x \<and> \<bar>x\<bar> < 2 ^ 53 then intToString \<lfloor>x\<rfloor>
      else fracToString e x)"

subsection \<open>Props, defaults and the merged options\<close>

datatype num_or_str = Num real | Str string

record textStyle =
  color :: string
  fontFamily :: string
  fontSize :: num_or_str
  fontWeight :: num_or_str

record textStyleProps =
  p_color :: "string option"
  p_fontFamily :: "string option"
  p_fontSize :: "num_or_str option"
  p_fontWeight :: "num_or_str option"

text \<open>\<open>LpWatermarkProps\<close>: every field is optional, \<open>None\<close> is \<open>undefined\<close>.\<close>

record props =
  p_width :: "real option"
  p_height :: "real option"
  p_text :: "string option"
  p_textStyle :: "textStyleProps option"
  p_image :: "string option"
  p_zIndex :: "real option"
  p_rotate :: "real option"
  p_gap :: "(real \<times> real) option"
  p_offset :: "(real \<times> real) option"

text \<open>
  The merged options. \<open>defaultOptions\<close> gives \<open>width\<close>, \<open>height\<close>, \<open>textStyle\<close>, \<open>rotate\<close>,
  \<open>zIndex\<close> and \<open>gap\<close>, so these are always present after the merge; \<open>text\<close>, \<open>image\<close> and
  \<open>offset\<close> have no default and stay optional (the cast to \<open>Required\<close> changes no value).
  The field \<open>text\<close> is named \<open>wtext\<close> here.
\<close>

record options =
  width :: real
  height :: real
  wtext :: "string option"
  textStyle :: textStyle
  image :: "string option"
  zIndex :: real
  rotate :: real
  gap :: "real \<times> real"
  offset :: "(real \<times> real) option"

definition defaultTextStyle :: textStyle where
  "defaultTextStyle =
     \<lparr>color = ''rgba(0, 0, 0, 0.15)'', fontFamily = ''sans-serif'',
      fontSize = Str ''16px'', fontWeight = Str ''normal''\<rparr>"

definition defaultOptions :: options where
  "defaultOptions =
     \<lparr>width = 120, height = 64, wtext = None, textStyle = defaultTextStyle, image = None,
      zIndex = 9, rotate = - 22, gap = (100, 100), offset = None\<rparr>"

definition over :: "'a \<Rightarrow> 'a option \<Rightarrow> 'a" where
  \<comment> \<open>lodash \<open>merge\<close> on one key: a source value that is \<open>undefined\<close> is skipped\<close>
  "over d s = (case s of None \<Rightarrow> d | Some v \<Rightarrow> v)"

definition mergeTextStyle :: "textStyle \<Rightarrow> textStyleProps option \<Rightarrow> textStyle" where
  "mergeTextStyle d s =
     (case s of
        None \<Rightarrow> d
      | Some t \<Rightarrow>
          \<lparr>color = over (color d) (p_color t), fontFamily = over (fontFamily d) (p_fontFamily t),
           fontSize = over (fontSize d) (p_fontSize t),
           fontWeight = over (fontWeight d) (p_fontWeight t)\<rparr>)"

definition merge :: "options \<Rightarrow> props \<Rightarrow> options" where
  \<comment> \<open>\<open>merge({}, defaultOptions, props)\<close>\<close>
  "merge d p =
     \<lparr>width = over (width d) (p_width p), height = over (height d) (p_height p),
      wtext = (case p_text p of None \<Rightarrow> wtext d | Some s \<Rightarrow> Some s),
      textStyle = mergeTextStyle (textStyle d) (p_textStyle p),
      image = (case p_image p of None \<Rightarrow> image d | Some s \<Rightarrow> Some s),
      zIndex = over (zIndex d) (p_zIndex p), rotate = over (rotate d) (p_rotate p),
      gap = over (gap d) (p_gap p),
      offset = (case p_offset p of None \<Rightarrow> offset d | Some v \<Rightarrow> Some v)\<rparr>"

definition noProps :: props where
  "noProps =
     \<lparr>p_width = None, p_height = None, p_text = None, p_textStyle = None, p_image = None,
      p_zIndex = None, p_rotate = None, p_gap = None, p_offset = None\<rparr>"

subsection \<open>\<open>getCanvasData\<close>\<close>

record tile =
  base64Url :: string
  tileWidth :: real
  tileHeight :: real

definition toNum :: "env \<Rightarrow> num_or_str \<Rightarrow> real option" where
  \<comment> \<open>\<open>None\<close> is the \<open>NaN\<close> of a string that \<open>parseFloat\<close> rejects\<close>
  "toNum e v = (case v of Num x \<Rightarrow> Some x | Str s \<Rightarrow> parseFloat e s)"

definition interp :: "env \<Rightarrow> num_or_str \<Rightarrow> string" where
  \<comment> \<open>a \<open>number | string\<close> inside a template literal\<close>
  "interp e v = (case v of Num x \<Rightarrow> numToString e x | Str s \<Rightarrow> s)"

definition fontOf :: "env \<Rightarrow> textStyle \<Rightarrow> string" where
  "fontOf e ts =
     interp e (fontWeight ts) @ '' '' @
     (case toNum e (fontSize ts) of None \<Rightarrow> ''NaN'' | Some x \<Rightarrow> numToString e x) @
     ''px '' @ fontFamily ts"

definition newCanvas :: canvas where
  \<comment> \<open>\<open>document.createElement("canvas")\<close> with its 2D context\<close>
  "newCanvas =
     \<lparr>attr_width = [], attr_height = [], style_width = [], style_height = [],
      ctx = \<lparr>font = ''10px sans-serif'', fillStyle = ''#000000'', textBaseline = ''alphabetic''\<rparr>,
      ops = []\<rparr>"

definition angleOf :: "env \<Rightarrow> options \<Rightarrow> real" where
  \<comment> \<open>\<open>(rotate * Math.PI) / 180\<close>, as the host's doubles give it\<close>
  "angleOf e options = fdiv e (fmul e (rotate options) (mathPI e)) 180"

definition configCanvas :: "env \<Rightarrow> options \<Rightarrow> real \<Rightarrow> real \<Rightarrow> canvas \<Rightarrow> canvas" where
  "configCanvas e options w h cv =
     (let canvasWidth = fst (gap options) + w;
          canvasHeight = snd (gap options) + h;
          ratio = devicePixelRatio e;
          RotateAngle = angleOf e options
      in cv\<lparr>attr_width := numToString e (canvasWidth * ratio) @ ''px'',
             attr_height := numToString e (canvasHeight * ratio) @ ''px'',
             style_width := numToString e canvasWidth @ ''px'',
             style_height := numToString e canvasHeight @ ''px'',
             ops := ops cv @
               [Translate ((canvasWidth * ratio) / 2) ((canvasHeight * ratio) / 2),
                Scale ratio ratio, Rotate RotateAngle]\<rparr>)"

definition textArg :: "options \<Rightarrow> string" where
  \<comment> \<open>the string the canvas API makes of \<open>text\<close>: \<open>undefined\<close> prints as its name\<close>
  "textArg options = (case wtext options of None \<Rightarrow> ''undefined'' | Some s \<Rightarrow> s)"

definition boundW :: "env \<Rightarrow> real \<Rightarrow> real \<Rightarrow> real \<Rightarrow> real" where
  \<comment> \<open>\<open>_textWidth\<close>: the sine, the cosine, the two products and the sum are the host's
      doubles; \<open>Math.abs\<close> and \<open>Math.ceil\<close> of a double are exact\<close>
  "boundW e angle textWidth textHeight =
     ceil (fadd e \<bar>fmul e (mathSin e angle) textHeight\<bar> \<bar>fmul e (mathCos e angle) textWidth\<bar>)"

definition boundH :: "env \<Rightarrow> real \<Rightarrow> real \<Rightarrow> real \<Rightarrow> real" where
  \<comment> \<open>\<open>_textHeight\<close>\<close>
  "boundH e angle textWidth textHeight =
     ceil (fadd e \<bar>fmul e (mathSin e angle) textWidth\<bar> \<bar>fmul e textHeight (mathCos e angle)\<bar>)"

definition drawText :: "env \<Rightarrow> options \<Rightarrow> canvas \<Rightarrow> tile \<times> canvas" where
  "drawText e options cv =
     (let ts = textStyle options;
          cv1 = cv\<lparr>ctx := (ctx cv)\<lparr>font := fontOf e ts\<rparr>\<rparr>;
          m = measureText e (font (ctx cv1)) (textArg options);
          textWidth = tm_width m;
          angle = angleOf e options;
          textHeight = fadd e (fontBoundingBoxAscent m) (fontBoundingBoxDescent m);
          textWidth' = boundW e angle textWidth textHeight;
          textHeight' = boundH e angle textWidth textHeight;
          w = orElse (width options) textWidth';
          h = orElse (height options) textHeight';
          cv2 = configCanvas e options w h cv1;
          cv3 = cv2\<lparr>ctx := \<lparr>font = fontOf e ts, fillStyle = color ts, textBaseline = ''top''\<rparr>\<rparr>;
          cv4 = cv3\<lparr>ops := ops cv3 @
                  [FillText (ctx cv3) (textArg options) (- textWidth' / 2)
                     (- (orElse (height options) textHeight') / 2)
                     (orElse (width options) textWidth')]\<rparr>
      in (\<lparr>base64Url = toDataURL e cv4, tileWidth = w, tileHeight = h\<rparr>, cv4))"

definition imageSize :: "options \<Rightarrow> image \<Rightarrow> real \<times> real" where
  \<comment> \<open>the \<open>width\<close> and \<open>height\<close> that \<open>img.onload\<close> settles on\<close>
  "imageSize options img =
     (let w = width options; h = height options
      in if falsy w \<or> falsy h then
           (if truthy w then (w, (real (img_height img) / real (img_width img)) * w)
            else ((real (img_width img) / real (img_height img)) * h, h))
         else (w, h))"

text \<open>
  \<open>drawImage\<close> returns a promise that only \<open>img.onload\<close> resolves. The first component of
  the result is what the promise settles to, \<open>None\<close> when it never settles; the second is
  the canvas as the handlers leave it. \<open>img.onerror\<close> calls \<open>drawText\<close>, which draws on the
  canvas, and returns its promise to the event dispatcher: \<open>resolve\<close> is not called.
\<close>

definition drawImage :: "env \<Rightarrow> options \<Rightarrow> string \<Rightarrow> canvas \<Rightarrow> tile option \<times> canvas" where
  "drawImage e options src cv =
     (case loadImage e src of
        Some img \<Rightarrow>
          (let (w, h) = imageSize options img;
               cv1 = configCanvas e options w h cv;
               cv2 = cv1\<lparr>ops := ops cv1 @ [DrawImage img (- w / 2) (- h / 2) w h]\<rparr>
           in (Some \<lparr>base64Url = toDataURL e cv2, tileWidth = w, tileHeight = h\<rparr>, cv2))
      | None \<Rightarrow> (None, snd (drawText e options cv)))"

definition getCanvasData :: "env \<Rightarrow> options \<Rightarrow> tile option \<times> canvas" where
  "getCanvasData e options =
     (case image options of
        None \<Rightarrow> (let r = drawText e options newCanvas in (Some (fst r), snd r))
      | Some src \<Rightarrow>
          if src = [] then (let r = drawText e options newCanvas in (Some (fst r), snd r))
          else drawImage e options src newCanvas)"

subsection \<open>The overlay's style\<close>

definition offsetLen :: "env \<Rightarrow> real option \<Rightarrow> string" where
  \<comment> \<open>\<open>offset?.[i] || 0 + "px"\<close>: \<open>+\<close> binds tighter than \<open>||\<close>, so the unit is appended to
      the fallback \<open>0\<close> only\<close>
  "offsetLen e v =
     (case v of None \<Rightarrow> ''0px'' | Some x \<Rightarrow> if falsy x then ''0px'' else numToString e x)"

definition wmDecls :: "env \<Rightarrow> options \<Rightarrow> tile \<Rightarrow> string list" where
  \<comment> \<open>the lines of the template literal \<open>wmStyle\<close>\<close>
  "wmDecls e options t =
     (let offsetLeft = offsetLen e (map_option fst (offset options));
          offsetTop = offsetLen e (map_option snd (offset options))
      in [''width:calc(100% - '' @ offsetLeft @ '');'',
          ''height:calc(100% - '' @ offsetTop @ '');'',
          ''position:absolute;'',
          ''top:'' @ offsetTop @ '';'',
          ''left:'' @ offsetLeft @ '';'',
          ''bottom:0;'',
          ''right:0;'',
          ''pointer-events: none;'',
          ''z-index:'' @ numToString e (zIndex options) @ '';'',
          ''background-position: 0 0;'',
          ''background-size:'' @ numToString e (fst (gap options) + tileWidth t) @ ''px '' @
             numToString e (snd (gap options) + tileHeight t) @ ''px;'',
          ''background-repeat: repeat;'',
          ''background-image:url('' @ base64Url t @ '')''])"

definition indent :: "string \<Rightarrow> string" where
  \<comment> \<open>every line of the literal starts with a line feed and six spaces\<close>
  "indent l = CHR 0x0A # ''      '' @ l"

definition wmStyle :: "env \<Rightarrow> options \<Rightarrow> tile \<Rightarrow> string" where
  "wmStyle e options t = concat (map indent (wmDecls e options t))"

subsection \<open>The container, its observers and \<open>drawWatermark\<close>\<close>

datatype node = Container | Elem nat

datatype mutation_type = Attributes | ChildList | CharacterData

record mutation =
  mtype :: mutation_type
  target :: node
  addedNodes :: "node list"
  removedNodes :: "node list"

definition flagOf :: "node \<Rightarrow> mutation \<Rightarrow> bool" where
  \<comment> \<open>the function given to \<open>mutations.some\<close>\<close>
  "flagOf wm m =
     (let flag = False;
          flag = (if removedNodes m \<noteq> [] then list_ex (\<lambda>n. n = wm) (removedNodes m) else flag);
          flag = (if mtype m = Attributes \<and> target m = wm then True else flag)
      in flag)"

definition isChanged :: "node \<Rightarrow> mutation list \<Rightarrow> bool" where
  "isChanged wm mutations = list_ex (flagOf wm) mutations"

definition callback :: "node \<Rightarrow> mutation list \<Rightarrow> nat" where
  \<comment> \<open>the observer's callback: how many times it calls \<open>drawWatermark\<close>\<close>
  "callback wm mutations = (if isChanged wm mutations then 1 else 0)"

text \<open>
  A \<open>MutationObserver\<close> made by \<open>drawWatermark\<close>: the overlay its callback closes over,
  whether it observes the container, and its queue of records not yet delivered.
\<close>

record observer =
  watermarkDiv :: node
  connected :: bool
  queue :: "mutation list"

text \<open>
  The state of one mounted component: the container's children in order, the style
  attribute of the elements, \<open>container.style.position\<close>, every observer made so far,
  \<open>mutationObserver.current\<close> (an index into them), the next fresh element, and the
  number of \<open>drawWatermark\<close> calls that await their tile.
\<close>

record state =
  childNodes :: "node list"
  styleOf :: "node \<Rightarrow> string option"
  position :: "string option"
  observers :: "observer list"
  current :: "nat option"
  nextId :: nat
  pending :: nat

definition notify :: "mutation \<Rightarrow> state \<Rightarrow> state" where
  \<comment> \<open>a mutation under the container is queued for every observer that observes it\<close>
  "notify m st =
     st\<lparr>observers :=
          map (\<lambda>ob. if connected ob then ob\<lparr>queue := queue ob @ [m]\<rparr> else ob) (observers st)\<rparr>"

definition disconnect :: "observer \<Rightarrow> observer" where
  \<comment> \<open>\<open>disconnect()\<close> stops the observation and empties the queue\<close>
  "disconnect ob = ob\<lparr>connected := False, queue := []\<rparr>"

definition disconnectCurrent :: "state \<Rightarrow> state" where
  \<comment> \<open>\<open>mutationObserver.current?.disconnect()\<close>\<close>
  "disconnectCurrent st =
     (case current st of
        None \<Rightarrow> st
      | Some i \<Rightarrow> st\<lparr>observers := (observers st)[i := disconnect (observers st ! i)]\<rparr>)"

definition appended :: "node \<Rightarrow> mutation" where
  "appended n = \<lparr>mtype = ChildList, target = Container, addedNodes = [n], removedNodes = []\<rparr>"

definition removed :: "node \<Rightarrow> mutation" where
  "removed n = \<lparr>mtype = ChildList, target = Container, addedNodes = [], removedNodes = [n]\<rparr>"

definition attributeOf :: "node \<Rightarrow> mutation" where
  "attributeOf n = \<lparr>mtype = Attributes, target = n, addedNodes = [], removedNodes = []\<rparr>"

definition render :: "env \<Rightarrow> options \<Rightarrow> tile \<Rightarrow> state \<Rightarrow> state" where
  \<comment> \<open>\<open>drawWatermark\<close> after its \<open>await\<close>. The new element gets its style while detached,
      which no observer of the container sees.\<close>
  "render e options t st =
     (let wm = Elem (nextId st);
          st1 = st\<lparr>nextId := Suc (nextId st), styleOf := (styleOf st)(wm \<mapsto> wmStyle e options t)\<rparr>;
          st2 = notify (appended wm) (st1\<lparr>childNodes := childNodes st1 @ [wm]\<rparr>);
          st3 = notify (attributeOf Container) (st2\<lparr>position := Some ''relative''\<rparr>);
          st4 = disconnectCurrent st3;
          st5 = st4\<lparr>observers := observers st4 @ [\<lparr>watermarkDiv = wm, connected = False, queue = []\<rparr>],
                    current := Some (length (observers st4))\<rparr>
      in st5\<lparr>observers := (observers st5)[length (observers st4) :=
                 (observers st5 ! length (observers st4))\<lparr>connected := True\<rparr>]\<rparr>)"

definition drawWatermark :: "env \<Rightarrow> options \<Rightarrow> state \<Rightarrow> state option" where
  \<comment> \<open>\<open>None\<close>: the awaited promise never settles and the run stays suspended\<close>
  "drawWatermark e options st =
     (case fst (getCanvasData e options) of
        None \<Rightarrow> None
      | Some t \<Rightarrow> Some (render e options t st))"

subsection \<open>Executions of the mounted component\<close>

datatype event =
    Resume
  | Deliver nat
  | RemoveChild node
  | SetStyle node string
  | AppendChild
  | Mutate mutation

text \<open>
  \<open>Resume\<close>: the tile of a waiting \<open>drawWatermark\<close> call arrives and the call runs to its end.
  \<open>Deliver i\<close>: the host hands observer \<open>i\<close> its queued records. The other events are the
  page's own code acting on the container: removing a child, setting the style attribute
  of a node under it, appending a new child, and any other change under the container,
  given by the record that its observers get. The part of \<open>drawWatermark\<close> after the
  \<open>await\<close> has no further \<open>await\<close>, so it runs without interruption and is one step.
\<close>

definition step :: "env \<Rightarrow> options \<Rightarrow> state \<Rightarrow> event \<Rightarrow> state" where
  "step e options st ev =
     (case ev of
        Resume \<Rightarrow>
          (if pending st = 0 then st
           else case drawWatermark e options st of
                  None \<Rightarrow> st
                | Some st' \<Rightarrow> st'\<lparr>pending := pending st - 1\<rparr>)
      | Deliver i \<Rightarrow>
          (if i < length (observers st) then
             (let ob = observers st ! i;
                  st1 = st\<lparr>observers := (observers st)[i := ob\<lparr>queue := []\<rparr>]\<rparr>
              in if queue ob = [] then st
                 else st1\<lparr>pending := pending st1 + callback (watermarkDiv ob) (queue ob)\<rparr>)
           else st)
      | RemoveChild n \<Rightarrow>
          (if n \<in> set (childNodes st)
           then notify (removed n) (st\<lparr>childNodes := removeAll n (childNodes st)\<rparr>)
           else st)
      | SetStyle n s \<Rightarrow> notify (attributeOf n) (st\<lparr>styleOf := (styleOf st)(n \<mapsto> s)\<rparr>)
      | AppendChild \<Rightarrow>
          notify (appended (Elem (nextId st)))
            (st\<lparr>nextId := Suc (nextId st), childNodes := childNodes st @ [Elem (nextId st)]\<rparr>)
      | Mutate m \<Rightarrow> notify m st)"

definition exec :: "env \<Rightarrow> options \<Rightarrow> state \<Rightarrow> event list \<Rightarrow> state" where
  "exec e options st evs = foldl (step e options) st evs"

definition mount :: "nat \<Rightarrow> state" where
  \<comment> \<open>the component right after mounting with \<open>k\<close> children: the effect has called
      \<open>drawWatermark\<close> once\<close>
  "mount k =
     \<lparr>childNodes = map Elem [0..<k], styleOf = Map.empty, position = None, observers = [],
      current = None, nextId = k, pending = 1\<rparr>"

definition active :: "state \<Rightarrow> nat" where
  \<comment> \<open>how many observers observe the container\<close>
  "active st = length (filter connected (observers st))"

subsection \<open>A sample host and sample inputs\<close>

text \<open>
  A host in which every text measures 10 wide with ascent 4 and descent 1, the device
  pixel ratio is 1, images load as the argument says, and the arithmetic is exact.
\<close>

definition host :: "(string \<Rightarrow> image option) \<Rightarrow> env" where
  "host ld =
     \<lparr>devicePixelRatio = 1,
      measureText = (\<lambda>f s. \<lparr>tm_width = 10, fontBoundingBoxAscent = 4, fontBoundingBoxDescent = 1\<rparr>),
      loadImage = ld,
      toDataURL = (\<lambda>cv. ''data:image/png;base64,'' @ natDigits (length (ops cv))),
      parseFloat = (\<lambda>s. if s = ''16px'' then Some 16 else None),
      fracToString = (\<lambda>x. ''?''),
      mathSin = sin, mathCos = cos, mathPI = pi,
      fadd = (\<lambda>a b. a + b), fmul = (\<lambda>a b. a * b), fdiv = (\<lambda>a b. a / b)\<rparr>"

definition typical :: env where
  \<comment> \<open>the same host, but a text measures 117 wide with ascent 15 and descent 3, about what
      a sans-serif font of 16px gives the twelve capitals of the example\<close>
  "typical =
     (host (\<lambda>src. None))\<lparr>measureText :=
        (\<lambda>f s. \<lparr>tm_width = 117, fontBoundingBoxAscent = 15, fontBoundingBoxDescent = 3\<rparr>)\<rparr>"

text \<open>
  A host with the arithmetic of IEEE doubles at the operands that a text of 10 by 5 at a
  rotation of 90 brings up; elsewhere it computes as the host above. \<open>Math.PI\<close> is the
  double next to \<open>\<pi>\<close>, \<open>90 * Math.PI / 180\<close> is half of it, its sine is 1 and its cosine
  is not 0 but about \<open>6.1e-17\<close>; the sum \<open>5 + 10 * cos\<close> rounds up to the double after 5,
  the sum \<open>10 + 5 * cos\<close> rounds to 10.
\<close>

definition halfPi :: real where
  "halfPi = 884279719003555 / 2 ^ 49"

definition cosHalfPi :: real where
  "cosHalfPi = 4967757600021511 / 2 ^ 106"

definition ieee :: env where
  "ieee =
     (host (\<lambda>src. None))
       \<lparr>mathSin := (\<lambda>x. if x = halfPi then 1 else sin x),
        mathCos := (\<lambda>x. if x = halfPi then cosHalfPi else cos x),
        mathPI := 884279719003555 / 2 ^ 48,
        fadd := (\<lambda>a b.
          if a = 5 \<and> b = 6209697000026889 / 2 ^ 103 then 5 + 1 / 2 ^ 50
          else if a = 10 \<and> b = 6209697000026889 / 2 ^ 104 then 10
          else a + b),
        fmul := (\<lambda>a b.
          if a = 90 \<and> b = 884279719003555 / 2 ^ 48 then 4974073419394997 / 2 ^ 44
          else if a = cosHalfPi \<and> b = 10 then 6209697000026889 / 2 ^ 103
          else if a = 5 \<and> b = cosHalfPi then 6209697000026889 / 2 ^ 104
          else a * b),
        fdiv := (\<lambda>a b.
          if a = 4974073419394997 / 2 ^ 44 \<and> b = 180 then halfPi else a / b)\<rparr>"

definition wide :: image where
  "wide = \<lparr>img_src = ''a.png'', img_width = 200, img_height = 100\<rparr>"

definition loads :: "string \<Rightarrow> image option" where
  \<comment> \<open>only \<open>a.png\<close> loads\<close>
  "loads src = (if src = ''a.png'' then Some wide else None)"


definition rotatedBounds :: "env \<Rightarrow> options \<Rightarrow> real \<times> real" where
  \<comment> \<open>the rotated bounding box of the measured text: \<open>_textWidth\<close> and \<open>_textHeight\<close> as
      \<open>drawText\<close> computes them\<close>
  "rotatedBounds e options =
     (let m = measureText e (fontOf e (textStyle options)) (textArg options);
          angle = angleOf e options;
          textHeight = fadd e (fontBoundingBoxAscent m) (fontBoundingBoxDescent m)
      in (boundW e angle (tm_width m) textHeight, boundH e angle (tm_width m) textHeight))"

definition sizeOf :: "tile option \<Rightarrow> (real \<times> real) option" where
  "sizeOf r = map_option (\<lambda>t. (tileWidth t, tileHeight t)) r"

definition plainText :: props where
  "plainText = noProps\<lparr>p_text := Some ''A'', p_rotate := Some 0\<rparr>"

definition zeroSize :: props where
  \<comment> \<open>the caller sets both dimensions to 0\<close>
  "zeroSize = plainText\<lparr>p_width := Some 0, p_height := Some 0\<rparr>"

definition quarterTurn :: props where
  \<comment> \<open>a text turned by 90 degrees, both dimensions set to 0\<close>
  "quarterTurn = zeroSize\<lparr>p_rotate := Some 90\<rparr>"

definition badImage :: props where
  \<comment> \<open>an image that fails to load, with a text to fall back to\<close>
  "badImage = plainText\<lparr>p_image := Some ''b.png''\<rparr>"

definition widthOnly :: props where
  \<comment> \<open>an image that loads; the caller gives the width only\<close>
  "widthOnly = noProps\<lparr>p_image := Some ''a.png'', p_width := Some 200\<rparr>"

definition zeroHeight :: props where
  \<comment> \<open>an image that loads; the caller gives the width and sets the height to 0\<close>
  "zeroHeight = widthOnly\<lparr>p_height := Some 0\<rparr>"

definition withOffset :: props where
  "withOffset = plainText\<lparr>p_offset := Some (30, 40)\<rparr>"

definition confidential :: props where
  "confidential = noProps\<lparr>p_text := Some ''CONFIDENTIAL'', p_gap := Some (50, 50), p_rotate := Some 0\<rparr>"

definition textBoxCentre :: "text_metrics \<Rightarrow> draw_op \<Rightarrow> (real \<times> real) option" where
  \<comment> \<open>Follows the specification's word "centered": the middle of the box that a drawn text
      fills, in the coordinates of the drawing call, whose origin the component puts at
      the centre of the canvas. Under the baseline \<open>top\<close> the box starts at the call's
      \<open>x\<close> and \<open>y\<close>; it is as wide as the text measures, at most the maximal width, and as
      high as the font (ascent plus descent). A centred text has its middle at the origin.\<close>
  "textBoxCentre m d =
     (case d of
        FillText p s x y maxWidth \<Rightarrow>
          Some (x + min (tm_width m) maxWidth / 2,
                y + (fontBoundingBoxAscent m + fontBoundingBoxDescent m) / 2)
      | _ \<Rightarrow> None)"

definition overlayStyle :: "state \<Rightarrow> string option" where
  \<comment> \<open>the style attribute of the container's last child\<close>
  "overlayStyle st = (if childNodes st = [] then None else styleOf st (last (childNodes st)))"

definition sampleOptions :: options where
  "sampleOptions = merge defaultOptions plainText"

definition sampleTile :: tile where
  "sampleTile = fst (drawText (host loads) sampleOptions newCanvas)"

subsection \<open>Invariants of executions\<close>

definition idle :: "observer \<Rightarrow> bool" where
  "idle ob = (\<not> connected ob \<and> queue ob = [])"

definition observersOk :: "state \<Rightarrow> bool" where
  \<comment> \<open>\<open>mutationObserver.current\<close> is the observer made last, it alone observes, and the
      others hold no records\<close>
  "observersOk st =
     (current st = (if observers st = [] then None else Some (length (observers st) - 1)) \<and>
      list_all idle (butlast (observers st)) \<and>
      (observers st = [] \<or> connected (last (observers st))))"

definition below :: "nat \<Rightarrow> node \<Rightarrow> bool" where
  "below k n = (case n of Container \<Rightarrow> False | Elem j \<Rightarrow> j < k)"

definition idsOk :: "state \<Rightarrow> bool" where
  \<comment> \<open>every child of the container is an element made before \<open>nextId\<close>\<close>
  "idsOk st = list_all (below (nextId st)) (childNodes st)"

section \<open>Properties of the tile\<close>

lemmas samples = plainText_def zeroSize_def quarterTurn_def badImage_def widthOnly_def zeroHeight_def
  withOffset_def confidential_def noProps_def

lemma merge_width:
  "width (merge defaultOptions p) = (case p_width p of None \<Rightarrow> 120 | Some w \<Rightarrow> w)"
  by (simp add: merge_def defaultOptions_def over_def)

lemma merge_height:
  "height (merge defaultOptions p) = (case p_height p of None \<Rightarrow> 64 | Some h \<Rightarrow> h)"
  by (simp add: merge_def defaultOptions_def over_def)

lemma merge_rotate:
  "rotate (merge defaultOptions p) = (case p_rotate p of None \<Rightarrow> - 22 | Some r \<Rightarrow> r)"
  by (simp add: merge_def defaultOptions_def over_def)

lemma merge_image: "image (merge defaultOptions p) = p_image p"
  by (simp add: merge_def defaultOptions_def split: option.splits)

lemma drawText_size:
  "sizeOf (Some (fst (drawText e options cv))) =
     Some (orElse (width options) (fst (rotatedBounds e options)),
           orElse (height options) (snd (rotatedBounds e options)))"
  by (simp add: drawText_def rotatedBounds_def sizeOf_def Let_def)

lemma getCanvasData_text:
  "image options = None \<or> image options = Some [] \<Longrightarrow>
     getCanvasData e options =
       (Some (fst (drawText e options newCanvas)), snd (drawText e options newCanvas))"
  by (auto simp add: getCanvasData_def Let_def)

lemma getCanvasData_error:
  "image options = Some src \<Longrightarrow> src \<noteq> [] \<Longrightarrow> loadImage e src = None \<Longrightarrow>
     getCanvasData e options = (None, snd (drawText e options newCanvas))"
  by (simp add: getCanvasData_def drawImage_def)

lemma getCanvasData_loaded:
  "image options = Some src \<Longrightarrow> src \<noteq> [] \<Longrightarrow> loadImage e src = Some img \<Longrightarrow>
     sizeOf (fst (getCanvasData e options)) = Some (imageSize options img)"
  by (simp add: getCanvasData_def drawImage_def sizeOf_def Let_def split: prod.splits)

lemma rotate0_bounds: "rotate options = 0 \<Longrightarrow> rotatedBounds (host ld) options = (10, 5)"
  by (simp add: rotatedBounds_def host_def boundW_def boundH_def angleOf_def ceil_def Let_def)

lemma imageSize_merged:
  "imageSize (merge defaultOptions p) img =
     (let w = (case p_width p of None \<Rightarrow> 120 | Some x \<Rightarrow> x);
          h = (case p_height p of None \<Rightarrow> 64 | Some y \<Rightarrow> y)
      in if w = 0 then ((real (img_width img) / real (img_height img)) * h, h)
         else if h = 0 then (w, (real (img_height img) / real (img_width img)) * w)
         else (w, h))"
  by (simp add: imageSize_def merge_width merge_height Let_def falsy_def truthy_def)

subsection \<open>C3: the size of a text tile\<close>

text \<open>
  C3 says that a text tile takes the rotated bounding box of the measured text whenever
  the caller gives no width and no height. The merge with \<open>defaultOptions\<close> fills both in
  first (120 and 64), and \<open>drawText\<close> falls back to the bounding box only for a merged
  dimension that is falsy. With a text that measures 10 by 5 at rotation 0 and no size
  from the caller, the tile is 120 by 64, not 10 by 5.
\<close>

theorem default_size_beats_text_bounds:
  "p_width plainText = None \<and> p_height plainText = None \<and>
   sizeOf (fst (getCanvasData (host loads) (merge defaultOptions plainText))) = Some (120, 64) \<and>
   rotatedBounds (host loads) (merge defaultOptions plainText) = (10, 5)"
proof -
  have "image (merge defaultOptions plainText) = None"
    by (simp add: merge_image samples)
  then have "sizeOf (fst (getCanvasData (host loads) (merge defaultOptions plainText))) =
      sizeOf (Some (fst (drawText (host loads) (merge defaultOptions plainText) newCanvas)))"
    by (simp add: getCanvasData_text)
  moreover have "rotatedBounds (host loads) (merge defaultOptions plainText) = (10, 5)"
    by (rule rotate0_bounds) (simp add: merge_rotate samples)
  ultimately show ?thesis
    by (simp add: drawText_size merge_width merge_height orElse_def falsy_def samples)
qed

lemma ieee_angle: "angleOf ieee (merge defaultOptions quarterTurn) = halfPi"
  by (simp add: angleOf_def merge_rotate samples ieee_def host_def)

lemma ieee_metrics:
  "measureText ieee f s = \<lparr>tm_width = 10, fontBoundingBoxAscent = 4, fontBoundingBoxDescent = 1\<rparr>"
  by (simp add: ieee_def host_def)

lemma ieee_height: "fadd ieee 4 1 = 5"
  by (simp add: ieee_def host_def)

lemma ieee_width: "boundW ieee halfPi 10 5 = 6"
proof -
  have a: "fadd ieee \<bar>fmul ieee (mathSin ieee halfPi) 5\<bar> \<bar>fmul ieee (mathCos ieee halfPi) 10\<bar> =
      5 + 1 / 2 ^ 50"
    by (simp add: ieee_def host_def cosHalfPi_def)
  have b: "\<lceil>5 + 1 / 2 ^ 50 :: real\<rceil> = 6"
    by (rule ceiling_unique) simp_all
  show ?thesis
    unfolding boundW_def ceil_def a b by simp
qed

lemma ieee_heightBound: "boundH ieee halfPi 10 5 = 10"
proof -
  have "fadd ieee \<bar>fmul ieee (mathSin ieee halfPi) 10\<bar> \<bar>fmul ieee 5 (mathCos ieee halfPi)\<bar> = 10"
    by (simp add: ieee_def host_def cosHalfPi_def)
  then show ?thesis
    by (simp add: boundH_def ceil_def)
qed

lemma ieee_bounds: "rotatedBounds ieee (merge defaultOptions quarterTurn) = (6, 10)"
  by (simp add: rotatedBounds_def Let_def ieee_angle ieee_metrics ieee_height ieee_width
      ieee_heightBound)

lemma exact_bounds: "rotatedBounds (host ld) (merge defaultOptions quarterTurn) = (5, 10)"
  by (simp add: rotatedBounds_def Let_def angleOf_def merge_rotate samples host_def boundW_def
      boundH_def ceil_def)

text \<open>
  C3 as amended: in text mode (no image in the props, or an empty one) the tile's width
  is the caller's width when it is given and not 0, the default 120 when it is not
  given, and only when the caller sets the width to 0 the width of the rotated bounding
  box, which is \<open>Math.ceil(|Math.sin(a) * textHeight| + |Math.cos(a) * textWidth|)\<close> with
  \<open>a = rotate * Math.PI / 180\<close> as the host's doubles give it; likewise the height, with
  the default 64 and \<open>Math.ceil(|Math.sin(a) * textWidth| + |textHeight * Math.cos(a)|)\<close>.
  In doubles the box can be one more than the exact one: a text of 10 by 5 turned by 90
  gets 6 by 10 (\<open>ieee_bounds\<close>), where exact arithmetic gives 5 by 10 (\<open>exact_bounds\<close>).
\<close>

theorem text_tile_size:
  assumes "p_image p = None \<or> p_image p = Some []"
  shows "sizeOf (fst (getCanvasData e (merge defaultOptions p))) =
           Some (case p_width p of
                   None \<Rightarrow> 120
                 | Some w \<Rightarrow> if w = 0 then fst (rotatedBounds e (merge defaultOptions p)) else w,
                 case p_height p of
                   None \<Rightarrow> 64
                 | Some h \<Rightarrow> if h = 0 then snd (rotatedBounds e (merge defaultOptions p)) else h)"
proof -
  have "image (merge defaultOptions p) = None \<or> image (merge defaultOptions p) = Some []"
    using assms by (simp add: merge_image)
  then have "sizeOf (fst (getCanvasData e (merge defaultOptions p))) =
      sizeOf (Some (fst (drawText e (merge defaultOptions p) newCanvas)))"
    by (simp add: getCanvasData_text)
  then show ?thesis
    by (simp add: drawText_size merge_width merge_height orElse_def falsy_def split: option.splits)
qed

theorem text_tile_size_witness:
  "(p_image quarterTurn = None \<or> p_image quarterTurn = Some []) \<and>
   sizeOf (fst (getCanvasData ieee (merge defaultOptions quarterTurn))) = Some (6, 10) \<and>
   sizeOf (fst (getCanvasData (host loads) (merge defaultOptions zeroSize))) = Some (10, 5)"
proof -
  have h: "p_image quarterTurn = None \<or> p_image quarterTurn = Some []"
    by (simp add: samples)
  have h': "p_image zeroSize = None \<or> p_image zeroSize = Some []"
    by (simp add: samples)
  have b: "rotatedBounds (host loads) (merge defaultOptions zeroSize) = (10, 5)"
    by (rule rotate0_bounds) (simp add: merge_rotate samples)
  have z: "p_width quarterTurn = Some 0" "p_height quarterTurn = Some 0"
    "p_width zeroSize = Some 0" "p_height zeroSize = Some 0"
    by (simp_all add: samples)
  have 1: "sizeOf (fst (getCanvasData ieee (merge defaultOptions quarterTurn))) = Some (6, 10)"
    using text_tile_size [OF h, of ieee] by (simp add: ieee_bounds z)
  have 2: "sizeOf (fst (getCanvasData (host loads) (merge defaultOptions zeroSize))) = Some (10, 5)"
    using text_tile_size [OF h', of "host loads"] by (simp add: b z)
  show ?thesis
    using h 1 2 by blast
qed

subsection \<open>C4: the size of an image tile\<close>

text \<open>
  C4 says that when the caller gives exactly one of width and height, the other follows
  the image's aspect ratio. The merge fills the missing one with its default first, so
  \<open>img.onload\<close> finds both truthy and keeps them: for a 200 by 100 image and a caller's
  width of 200, the height is the default 64, not 100.
\<close>

theorem default_height_beats_aspect_ratio:
  "p_width widthOnly = Some 200 \<and> p_height widthOnly = None \<and>
   sizeOf (fst (getCanvasData (host loads) (merge defaultOptions widthOnly))) = Some (200, 64) \<and>
   (real (img_height wide) / real (img_width wide)) * 200 = 100"
proof -
  have "image (merge defaultOptions widthOnly) = Some ''a.png''"
    by (simp add: merge_image samples)
  moreover have "loadImage (host loads) ''a.png'' = Some wide"
    by (simp add: host_def loads_def)
  ultimately have "sizeOf (fst (getCanvasData (host loads) (merge defaultOptions widthOnly))) =
      Some (imageSize (merge defaultOptions widthOnly) wide)"
    by (simp add: getCanvasData_loaded)
  then show ?thesis
    by (simp add: imageSize_merged samples wide_def)
qed

text \<open>
  C4 as amended: for an image that loads with positive intrinsic width \<open>iw\<close> and height
  \<open>ih\<close>, let \<open>w\<close> and \<open>h\<close> be the caller's width and height, or the defaults 120 and 64
  where the caller gives none. If \<open>w\<close> is 0 the tile is \<open>(iw / ih) * h\<close> by \<open>h\<close>; otherwise,
  if \<open>h\<close> is 0 the tile is \<open>w\<close> by \<open>(ih / iw) * w\<close>; otherwise it is \<open>w\<close> by \<open>h\<close>. The aspect
  ratio is kept only for a dimension that is 0 after the merge.
\<close>

theorem image_tile_size:
  assumes "p_image p = Some src" and "src \<noteq> []" and "loadImage e src = Some img"
    and "0 < img_width img" and "0 < img_height img"
  shows "sizeOf (fst (getCanvasData e (merge defaultOptions p))) =
           Some (let w = (case p_width p of None \<Rightarrow> 120 | Some x \<Rightarrow> x);
                     h = (case p_height p of None \<Rightarrow> 64 | Some y \<Rightarrow> y)
                 in if w = 0 then ((real (img_width img) / real (img_height img)) * h, h)
                    else if h = 0 then (w, (real (img_height img) / real (img_width img)) * w)
                    else (w, h))"
proof -
  have "image (merge defaultOptions p) = Some src"
    using assms(1) by (simp add: merge_image)
  then have "sizeOf (fst (getCanvasData e (merge defaultOptions p))) =
      Some (imageSize (merge defaultOptions p) img)"
    using assms(2,3) by (rule getCanvasData_loaded)
  then show ?thesis
    by (simp only: imageSize_merged)
qed

theorem image_tile_size_witness:
  "p_image zeroHeight = Some ''a.png'' \<and> ''a.png'' \<noteq> [] \<and>
   loadImage (host loads) ''a.png'' = Some wide \<and> 0 < img_width wide \<and> 0 < img_height wide \<and>
   sizeOf (fst (getCanvasData (host loads) (merge defaultOptions zeroHeight))) = Some (200, 100)"
proof -
  have h: "p_image zeroHeight = Some ''a.png''" "''a.png'' \<noteq> []"
    "loadImage (host loads) ''a.png'' = Some wide" "0 < img_width wide" "0 < img_height wide"
    by (simp_all add: samples host_def loads_def wide_def)
  show ?thesis
    using image_tile_size [OF h] h by (simp add: samples wide_def)
qed


subsection \<open>C1: an image that fails to load\<close>

lemma drawWatermark_error:
  "image options = Some src \<Longrightarrow> src \<noteq> [] \<Longrightarrow> loadImage e src = None \<Longrightarrow>
     drawWatermark e options st = None"
  by (simp add: drawWatermark_def getCanvasData_error)

lemma Resume_suspended:
  "drawWatermark e options st = None \<Longrightarrow> exec e options st (replicate n Resume) = st"
  by (induction n) (simp_all add: exec_def step_def)

lemma badImage_canvas:
  "ops (snd (drawText (host loads) (merge defaultOptions badImage) newCanvas)) =
     [Translate 110 82, Scale 1 1, Rotate 0,
      FillText \<lparr>font = ''normal 16px sans-serif'', fillStyle = ''rgba(0, 0, 0, 0.15)'',
                 textBaseline = ''top''\<rparr> ''A'' (- 5) (- 32) 120]"
  by (simp add: merge_def samples host_def drawText_def Let_def configCanvas_def angleOf_def
      defaultOptions_def over_def orElse_def falsy_def boundW_def boundH_def ceil_def fontOf_def
      newCanvas_def mergeTextStyle_def defaultTextStyle_def textArg_def toNum_def interp_def
      numToString_def intToString_def)

text \<open>
  C1 says that a failed image load falls back to text mode and the run still completes
  with an overlay. In the code \<open>img.onerror\<close> does call \<open>drawText\<close>, which draws the text on
  the canvas, but the promise that \<open>drawWatermark\<close> awaits is resolved by \<open>img.onload\<close>
  only. For the props \<open>badImage\<close>, whose image does not load: the promise never settles,
  the canvas holds the drawn text, and however often the suspended run is offered to
  resume, the mounted component stays as it was, without an overlay and without an
  observer.
\<close>

theorem image_error_leaves_run_suspended:
  "p_image badImage = Some ''b.png'' \<and> loadImage (host loads) ''b.png'' = None \<and>
   getCanvasData (host loads) (merge defaultOptions badImage) =
     (None, snd (drawText (host loads) (merge defaultOptions badImage) newCanvas)) \<and>
   ops (snd (drawText (host loads) (merge defaultOptions badImage) newCanvas)) =
     [Translate 110 82, Scale 1 1, Rotate 0,
      FillText \<lparr>font = ''normal 16px sans-serif'', fillStyle = ''rgba(0, 0, 0, 0.15)'',
                 textBaseline = ''top''\<rparr> ''A'' (- 5) (- 32) 120] \<and>
   drawWatermark (host loads) (merge defaultOptions badImage) (mount 0) = None \<and>
   exec (host loads) (merge defaultOptions badImage) (mount 0) (replicate n Resume) = mount 0"
proof -
  have i: "image (merge defaultOptions badImage) = Some ''b.png''"
    by (simp add: merge_image samples)
  have l: "loadImage (host loads) ''b.png'' = None"
    by (simp add: host_def loads_def)
  have d: "drawWatermark (host loads) (merge defaultOptions badImage) (mount 0) = None"
    using i l by (simp add: drawWatermark_error)
  have g: "getCanvasData (host loads) (merge defaultOptions badImage) =
     (None, snd (drawText (host loads) (merge defaultOptions badImage) newCanvas))"
    using i l by (simp add: getCanvasData_error)
  have p: "p_image badImage = Some ''b.png''"
    by (simp add: samples)
  show ?thesis
    using p l g d badImage_canvas Resume_suspended [OF d] by simp
qed

section \<open>Properties of the overlay\<close>

subsection \<open>C5: the offset in the overlay's style\<close>

lemma offsetLen_number: "x \<noteq> 0 \<Longrightarrow> offsetLen e (Some x) = numToString e x"
  by (simp add: offsetLen_def falsy_def)

text \<open>
  C5 says that an offset \<open>[x, y]\<close> puts the overlay \<open>x\<close> pixels from the left and \<open>y\<close> pixels
  from the top and sizes it to \<open>calc(100% - x px)\<close> by \<open>calc(100% - y px)\<close>. In
  \<open>offset?.[0] || 0 + "px"\<close> the unit is appended to the fallback only, so a non-zero
  offset is printed as a bare number: for the offset \<open>[30, 40]\<close> the style starts with
  the declarations below, where \<open>left\<close>, \<open>top\<close> and both \<open>calc\<close> lengths lack their unit.
\<close>

theorem offset_lengths_have_no_unit:
  "take 5 (wmDecls e (merge defaultOptions withOffset) t) =
     [''width:calc(100% - 30);'', ''height:calc(100% - 40);'', ''position:absolute;'',
      ''top:40;'', ''left:30;'']"
  by (simp add: wmDecls_def merge_def samples offsetLen_def falsy_def numToString_def
      intToString_def defaultOptions_def)

subsection \<open>C8: the example of the specification\<close>

lemma confidential_merged:
  "merge defaultOptions confidential =
     \<lparr>width = 120, height = 64, wtext = Some ''CONFIDENTIAL'', textStyle = defaultTextStyle,
      image = None, zIndex = 9, rotate = 0, gap = (50, 50), offset = None\<rparr>"
  by (simp add: merge_def samples defaultOptions_def over_def mergeTextStyle_def)

lemma confidential_canvas:
  "snd (getCanvasData e (merge defaultOptions confidential)) =
     \<lparr>attr_width = numToString e (170 * devicePixelRatio e) @ ''px'',
      attr_height = numToString e (114 * devicePixelRatio e) @ ''px'',
      style_width = ''170px'', style_height = ''114px'',
      ctx = \<lparr>font = fontOf e defaultTextStyle, fillStyle = ''rgba(0, 0, 0, 0.15)'',
              textBaseline = ''top''\<rparr>,
      ops =
        [Translate ((170 * devicePixelRatio e) / 2) ((114 * devicePixelRatio e) / 2),
         Scale (devicePixelRatio e) (devicePixelRatio e),
         Rotate (angleOf e (merge defaultOptions confidential)),
         FillText \<lparr>font = fontOf e defaultTextStyle, fillStyle = ''rgba(0, 0, 0, 0.15)'',
                    textBaseline = ''top''\<rparr> ''CONFIDENTIAL''
           (- fst (rotatedBounds e (merge defaultOptions confidential)) / 2) (- 32) 120]\<rparr>"
proof -
  have n: "numToString e 170 = ''170''" "numToString e 114 = ''114''"
    by (simp_all add: numToString_def intToString_def)
  show ?thesis
    by (simp add: confidential_merged getCanvasData_def drawText_def rotatedBounds_def Let_def
        configCanvas_def orElse_def falsy_def newCanvas_def textArg_def n defaultTextStyle_def)
qed

lemma confidential_tile:
  "fst (getCanvasData e (merge defaultOptions confidential)) =
     Some \<lparr>base64Url = toDataURL e (snd (getCanvasData e (merge defaultOptions confidential))),
           tileWidth = 120, tileHeight = 64\<rparr>"
  by (simp add: confidential_merged getCanvasData_def drawText_def Let_def orElse_def falsy_def)

lemma overlayStyle_render: "overlayStyle (render e options t st) = Some (wmStyle e options t)"
  by (simp add: overlayStyle_def render_def Let_def notify_def disconnectCurrent_def
      split: option.splits)

lemma confidential_decls:
  "wmDecls e (merge defaultOptions confidential) \<lparr>base64Url = u, tileWidth = 120, tileHeight = 64\<rparr> =
     [''width:calc(100% - 0px);'', ''height:calc(100% - 0px);'', ''position:absolute;'',
      ''top:0px;'', ''left:0px;'', ''bottom:0;'', ''right:0;'', ''pointer-events: none;'',
      ''z-index:9;'', ''background-position: 0 0;'', ''background-size:170px 114px;'',
      ''background-repeat: repeat;'', ''background-image:url('' @ u @ '')'']"
  by (simp add: confidential_merged wmDecls_def offsetLen_def numToString_def intToString_def)

lemma typical_bounds: "rotatedBounds typical (merge defaultOptions confidential) = (117, 18)"
  by (simp add: confidential_merged rotatedBounds_def typical_def host_def boundW_def boundH_def
      angleOf_def ceil_def Let_def)

lemma typical_font: "fontOf typical defaultTextStyle = ''normal 16px sans-serif''"
  by (simp add: fontOf_def defaultTextStyle_def typical_def host_def interp_def toNum_def
      numToString_def intToString_def)

text \<open>
  C8 says that for the props \<open>{ text: "CONFIDENTIAL", gap: [50,50], rotate: 0 }\<close> the
  background-size is 170px by 114px and the tile contains the centered string. The size
  is as said, but the string is not centred. \<open>drawText\<close> starts the text, with the
  baseline \<open>top\<close>, at minus half of \<open>options.height || _textHeight\<close>, and the merge has
  set the height to the default 64: the top of the text is at the top of the tile. In a
  host where the string measures 117 by 18, the text is drawn from \<open>(-117/2, -32)\<close> and
  the middle of its box is at \<open>(0, -23)\<close>: centred from left to right, 23 above the
  centre from top to bottom.
\<close>

theorem confidential_text_sits_at_the_top:
  "sizeOf (fst (getCanvasData typical (merge defaultOptions confidential))) = Some (120, 64) \<and>
   measureText typical ''normal 16px sans-serif'' ''CONFIDENTIAL'' =
     \<lparr>tm_width = 117, fontBoundingBoxAscent = 15, fontBoundingBoxDescent = 3\<rparr> \<and>
   last (ops (snd (getCanvasData typical (merge defaultOptions confidential)))) =
     FillText \<lparr>font = ''normal 16px sans-serif'', fillStyle = ''rgba(0, 0, 0, 0.15)'',
                textBaseline = ''top''\<rparr> ''CONFIDENTIAL'' (- 117 / 2) (- 32) 120 \<and>
   textBoxCentre (measureText typical ''normal 16px sans-serif'' ''CONFIDENTIAL'')
     (last (ops (snd (getCanvasData typical (merge defaultOptions confidential))))) =
     Some (0, - 23)"
proof -
  have m: "measureText typical f s =
      \<lparr>tm_width = 117, fontBoundingBoxAscent = 15, fontBoundingBoxDescent = 3\<rparr>" for f s
    by (simp add: typical_def host_def)
  show ?thesis
    by (simp add: confidential_canvas confidential_tile typical_bounds typical_font sizeOf_def m
        textBoxCentre_def)
qed

text \<open>
  C8 as amended: for these props, in every host and from every state, the run completes
  and the style of the overlay it appends declares \<open>background-size:170px 114px\<close> and, as
  background image, the export of a canvas that is 170 by 114 in layout units, that
  many device pixels times the device pixel ratio, on which exactly one text was drawn:
  \<open>CONFIDENTIAL\<close>, with the baseline \<open>top\<close> and the maximal width 120, after the origin
  was moved to the centre of the canvas, from \<open>x\<close> minus half the rounded-up bounding
  width of the measured text and \<open>y = -32\<close>, minus half the tile height 64. So the
  middle of the text's box lies half the font height less 32 below the centre of the
  tile: the text is at the top of the tile, and centred from top to bottom only in a
  font that is 64 high. The pixels themselves are the host's.
\<close>

theorem confidential_example:
  "Option.bind (drawWatermark e (merge defaultOptions confidential) st) overlayStyle =
     Some (concat (map indent
       [''width:calc(100% - 0px);'', ''height:calc(100% - 0px);'', ''position:absolute;'',
        ''top:0px;'', ''left:0px;'', ''bottom:0;'', ''right:0;'', ''pointer-events: none;'',
        ''z-index:9;'', ''background-position: 0 0;'', ''background-size:170px 114px;'',
        ''background-repeat: repeat;'',
        ''background-image:url('' @
           toDataURL e (snd (getCanvasData e (merge defaultOptions confidential))) @ '')''])) \<and>
   snd (getCanvasData e (merge defaultOptions confidential)) =
     \<lparr>attr_width = numToString e (170 * devicePixelRatio e) @ ''px'',
      attr_height = numToString e (114 * devicePixelRatio e) @ ''px'',
      style_width = ''170px'', style_height = ''114px'',
      ctx = \<lparr>font = fontOf e defaultTextStyle, fillStyle = ''rgba(0, 0, 0, 0.15)'',
              textBaseline = ''top''\<rparr>,
      ops =
        [Translate ((170 * devicePixelRatio e) / 2) ((114 * devicePixelRatio e) / 2),
         Scale (devicePixelRatio e) (devicePixelRatio e),
         Rotate (angleOf e (merge defaultOptions confidential)),
         FillText \<lparr>font = fontOf e defaultTextStyle, fillStyle = ''rgba(0, 0, 0, 0.15)'',
                    textBaseline = ''top''\<rparr> ''CONFIDENTIAL''
           (- fst (rotatedBounds e (merge defaultOptions confidential)) / 2) (- 32) 120]\<rparr> \<and>
   textBoxCentre (measureText e (fontOf e defaultTextStyle) ''CONFIDENTIAL'')
     (last (ops (snd (getCanvasData e (merge defaultOptions confidential))))) =
     Some (min (tm_width (measureText e (fontOf e defaultTextStyle) ''CONFIDENTIAL'')) 120 / 2 -
             fst (rotatedBounds e (merge defaultOptions confidential)) / 2,
           (fontBoundingBoxAscent (measureText e (fontOf e defaultTextStyle) ''CONFIDENTIAL'') +
            fontBoundingBoxDescent (measureText e (fontOf e defaultTextStyle) ''CONFIDENTIAL'')) / 2
             - 32)"
proof -
  have "Option.bind (drawWatermark e (merge defaultOptions confidential) st) overlayStyle =
      Some (wmStyle e (merge defaultOptions confidential)
        \<lparr>base64Url = toDataURL e (snd (getCanvasData e (merge defaultOptions confidential))),
         tileWidth = 120, tileHeight = 64\<rparr>)"
    by (simp add: drawWatermark_def confidential_tile overlayStyle_render)
  then have 1: "Option.bind (drawWatermark e (merge defaultOptions confidential) st) overlayStyle =
     Some (concat (map indent
       [''width:calc(100% - 0px);'', ''height:calc(100% - 0px);'', ''position:absolute;'',
        ''top:0px;'', ''left:0px;'', ''bottom:0;'', ''right:0;'', ''pointer-events: none;'',
        ''z-index:9;'', ''background-position: 0 0;'', ''background-size:170px 114px;'',
        ''background-repeat: repeat;'',
        ''background-image:url('' @
           toDataURL e (snd (getCanvasData e (merge defaultOptions confidential))) @ '')'']))"
    by (simp only: wmStyle_def confidential_decls)
  have 2: "textBoxCentre (measureText e (fontOf e defaultTextStyle) ''CONFIDENTIAL'')
     (last (ops (snd (getCanvasData e (merge defaultOptions confidential))))) =
     Some (min (tm_width (measureText e (fontOf e defaultTextStyle) ''CONFIDENTIAL'')) 120 / 2 -
             fst (rotatedBounds e (merge defaultOptions confidential)) / 2,
           (fontBoundingBoxAscent (measureText e (fontOf e defaultTextStyle) ''CONFIDENTIAL'') +
            fontBoundingBoxDescent (measureText e (fontOf e defaultTextStyle) ''CONFIDENTIAL'')) / 2
             - 32)"
    by (simp add: confidential_canvas textBoxCentre_def)
  show ?thesis
    using 1 2 confidential_canvas [of e] by (simp only: simp_thms)
qed

section \<open>Properties of executions\<close>

subsection \<open>The observers' invariant\<close>

lemma observers_notify:
  "observers (notify m st) =
     map (\<lambda>ob. if connected ob then ob\<lparr>queue := queue ob @ [m]\<rparr> else ob) (observers st)"
  by (simp add: notify_def)

lemma notify_idle: "list_all idle obs \<Longrightarrow>
    map (\<lambda>ob. if connected ob then ob\<lparr>queue := queue ob @ [m]\<rparr> else ob) obs = obs"
  by (induction obs) (simp_all add: idle_def)

lemma observersOk_Nil: "observers st = [] \<Longrightarrow> observersOk st = (current st = None)"
  by (simp add: observersOk_def)

lemma observersOk_snoc:
  "observers st = obs @ [ob] \<Longrightarrow>
     observersOk st = (current st = Some (length obs) \<and> connected ob \<and> list_all idle obs)"
  by (auto simp add: observersOk_def)

lemma observersOk_cases:
  assumes "observersOk st"
  obtains "observers st = []" "current st = None"
  | obs ob where "observers st = obs @ [ob]" "current st = Some (length obs)" "connected ob"
      "list_all idle obs"
proof (cases "observers st" rule: rev_cases)
  case Nil
  with assms that(1) show ?thesis by (simp add: observersOk_Nil)
next
  case (snoc obs ob)
  with assms that(2) show ?thesis by (simp add: observersOk_snoc)
qed

lemma disconnect_idle: "list_all idle obs \<Longrightarrow> map disconnect obs = obs"
  by (induction obs) (simp_all add: idle_def disconnect_def)

lemma observers_render:
  assumes "observersOk st"
  shows "observers (render e options t st) =
           map disconnect (observers st) @
           [\<lparr>watermarkDiv = Elem (nextId st), connected = True, queue = []\<rparr>] \<and>
         current (render e options t st) = Some (length (observers st))"
  using assms
proof (cases rule: observersOk_cases)
  case 1
  then show ?thesis
    by (simp add: render_def Let_def notify_def disconnectCurrent_def)
next
  case (2 obs ob)
  then show ?thesis
    by (simp add: render_def Let_def notify_def disconnectCurrent_def notify_idle
        disconnect_idle disconnect_def nth_append)
qed

lemma idle_disconnect: "idle (disconnect ob)"
  by (simp add: idle_def disconnect_def)

lemma observersOk_render:
  assumes "observersOk st"
  shows "observersOk (render e options t st)"
proof -
  have "list_all idle (map disconnect (observers st))"
    by (simp add: list_all_iff idle_disconnect)
  then show ?thesis
    using observers_render [OF assms, of e options t]
    by (simp add: observersOk_snoc [where obs = "map disconnect (observers st)"])
qed

lemma observersOk_notify:
  assumes "observersOk st"
  shows "observersOk (notify m st)"
  using assms
proof (cases rule: observersOk_cases)
  case 1
  then show ?thesis by (simp add: observersOk_Nil notify_def)
next
  case (2 obs ob)
  then have "observers (notify m st) = obs @ [ob\<lparr>queue := queue ob @ [m]\<rparr>]"
    by (simp add: notify_def notify_idle)
  moreover have "current (notify m st) = current st"
    by (simp add: notify_def)
  ultimately show ?thesis using 2 by (simp add: observersOk_snoc)
qed

lemma observersOk_fields:
  "observers st' = observers st \<Longrightarrow> current st' = current st \<Longrightarrow>
     observersOk st' = observersOk st"
  by (simp add: observersOk_def)

lemma observersOk_Deliver:
  assumes "observersOk st"
  shows "observersOk (step e options st (Deliver i))"
  using assms
proof (cases rule: observersOk_cases)
  case 1
  then show ?thesis using assms by (simp add: step_def)
next
  case (2 obs ob)
  show ?thesis
  proof (cases "i < length obs")
    case True
    then have "queue ((obs @ [ob]) ! i) = []"
      using 2(4) by (simp add: nth_append list_all_length idle_def)
    then show ?thesis using assms 2 True
      by (simp add: step_def Let_def)
  next
    case False
    show ?thesis
    proof (cases "i = length obs")
      case True
      then show ?thesis using assms 2
        by (simp add: step_def Let_def observersOk_snoc [where obs = obs])
    next
      case False
      with \<open>\<not> i < length obs\<close> show ?thesis using assms 2 by (simp add: step_def)
    qed
  qed
qed

lemma observersOk_step:
  assumes "observersOk st"
  shows "observersOk (step e options st ev)"
proof (cases ev)
  case Resume
  then show ?thesis using assms
    by (auto simp add: step_def drawWatermark_def observersOk_render
        observersOk_fields [of "s\<lparr>pending := n\<rparr>" s for s n] split: option.splits)
next
  case (Deliver i)
  then show ?thesis using assms by (simp add: observersOk_Deliver)
next
  case (RemoveChild n)
  have "observersOk (st\<lparr>childNodes := removeAll n (childNodes st)\<rparr>)"
    using assms by (simp add: observersOk_def)
  then show ?thesis using RemoveChild assms
    by (simp add: step_def observersOk_notify)
next
  case (SetStyle n s)
  have "observersOk (st\<lparr>styleOf := (styleOf st)(n \<mapsto> s)\<rparr>)"
    using assms by (simp add: observersOk_def)
  then show ?thesis using SetStyle by (simp add: step_def observersOk_notify)
next
  case AppendChild
  have "observersOk (st\<lparr>nextId := Suc (nextId st), childNodes := childNodes st @ [Elem (nextId st)]\<rparr>)"
    using assms by (simp add: observersOk_def)
  then show ?thesis using AppendChild by (simp add: step_def observersOk_notify)
next
  case (Mutate m)
  then show ?thesis using assms by (simp add: step_def observersOk_notify)
qed

lemma observersOk_exec: "observersOk st \<Longrightarrow> observersOk (exec e options st evs)"
  unfolding exec_def by (induction evs arbitrary: st) (simp_all add: observersOk_step)

lemma observersOk_mount: "observersOk (mount k)"
  by (simp add: observersOk_def mount_def)

lemma observersOk_active:
  assumes "observersOk st"
  shows "active st = (if observers st = [] then 0 else 1)"
  using assms
proof (cases rule: observersOk_cases)
  case 1
  then show ?thesis by (simp add: active_def)
next
  case (2 obs ob)
  have "filter connected obs = []"
    using 2(4) by (induction obs) (simp_all add: idle_def)
  with 2 show ?thesis by (simp add: active_def)
qed

lemma reachable_ok: "observersOk (exec e options (mount k) evs)"
  by (simp add: observersOk_exec observersOk_mount)

lemma exec_append: "exec e options st (evs @ evs') = exec e options (exec e options st evs) evs'"
  by (simp add: exec_def)

lemma render_fields:
  "childNodes (render e options t st) = childNodes st @ [Elem (nextId st)]"
  "position (render e options t st) = Some ''relative''"
  "styleOf (render e options t st) = (styleOf st)(Elem (nextId st) \<mapsto> wmStyle e options t)"
  "nextId (render e options t st) = Suc (nextId st)"
  "pending (render e options t st) = pending st"
  by (simp_all add: render_def Let_def notify_def disconnectCurrent_def split: option.splits)

lemma step_Resume:
  "0 < pending st \<Longrightarrow> fst (getCanvasData e options) = Some t \<Longrightarrow>
     step e options st Resume = (render e options t st)\<lparr>pending := pending st - 1\<rparr>"
  by (simp add: step_def drawWatermark_def)

lemma connected_disconnect: "connected (disconnect ob) = False"
  by (simp add: disconnect_def)

lemma idle_map_disconnect: "list_all idle (map disconnect obs)"
  by (simp add: list_all_iff idle_disconnect)

lemma connected_render:
  assumes "observersOk st"
  shows "map connected (observers (render e options t st)) =
           replicate (length (observers st)) False @ [True]"
proof -
  have "map connected (map disconnect obs) = replicate (length obs) False" for obs
    by (induction obs) (simp_all add: disconnect_def)
  then show ?thesis
    using observers_render [OF assms, of e options t] by simp
qed

lemma length_observers_step: "length (observers st) \<le> length (observers (step e options st ev))"
  by (cases ev)
    (auto simp add: step_def Let_def notify_def drawWatermark_def render_def
      disconnectCurrent_def split: option.splits)

lemma length_observers_exec: "length (observers st) \<le> length (observers (exec e options st evs))"
  unfolding exec_def
proof (induction evs arbitrary: st)
  case Nil
  show ?case by simp
next
  case (Cons ev evs)
  have "length (observers st) \<le> length (observers (step e options st ev))"
    by (rule length_observers_step)
  also have "\<dots> \<le> length (observers (foldl (step e options) (step e options st ev) evs))"
    by (rule Cons.IH)
  finally show ?case by simp
qed

lemma active_stays:
  assumes "observersOk st" and "active st = 1"
  shows "active (exec e options st evs) = 1"
proof -
  have ok: "observersOk (exec e options st evs)"
    using assms(1) by (rule observersOk_exec)
  have "0 < length (observers st)"
    using observersOk_active [OF assms(1)] assms(2) by (cases "observers st = []") simp_all
  also have "\<dots> \<le> length (observers (exec e options st evs))"
    by (rule length_observers_exec)
  finally show ?thesis
    using observersOk_active [OF ok] by simp
qed

subsection \<open>C6: one observer at a time\<close>

lemma active_flags: "active st = length (filter (\<lambda>b. b) (map connected (observers st)))"
  by (simp add: active_def filter_map comp_def)

text \<open>
  C6: at every point of an execution of the mounted component at most one observer made
  by the renderer observes the container. A run that gets its tile leaves every observer
  made before it disconnected and the one it makes connected, so that exactly one is
  active; and once one observer is active, exactly one is active ever after.
\<close>

theorem one_active_observer:
  "active (exec e options (mount k) evs) \<le> 1 \<and>
   (0 < pending (exec e options (mount k) evs) \<and> fst (getCanvasData e options) \<noteq> None \<longrightarrow>
      map connected (observers (exec e options (mount k) (evs @ [Resume]))) =
        replicate (length (observers (exec e options (mount k) evs))) False @ [True] \<and>
      active (exec e options (mount k) (evs @ [Resume])) = 1) \<and>
   (active (exec e options (mount k) evs) = 1 \<longrightarrow>
      active (exec e options (mount k) (evs @ evs')) = 1)"
proof -
  let ?st = "exec e options (mount k) evs"
  have ok: "observersOk ?st"
    by (rule reachable_ok)
  have 1: "active ?st \<le> 1"
    using observersOk_active [OF ok] by simp
  have 2: "map connected (observers (exec e options (mount k) (evs @ [Resume]))) =
        replicate (length (observers ?st)) False @ [True] \<and>
      active (exec e options (mount k) (evs @ [Resume])) = 1"
    if "0 < pending ?st" and "fst (getCanvasData e options) = Some t" for t
  proof -
    have "map connected (observers (exec e options (mount k) (evs @ [Resume]))) =
        replicate (length (observers ?st)) False @ [True]"
      using step_Resume [OF that] connected_render [OF ok, of e options t]
      by (simp add: exec_append exec_def [of _ _ _ "[Resume]"])
    then show ?thesis
      by (simp add: active_flags)
  qed
  have 3: "active (exec e options (mount k) (evs @ evs')) = 1" if "active ?st = 1"
    using active_stays [OF ok that] by (simp add: exec_append)
  show ?thesis
    using 1 2 3 by auto
qed

lemma sample_tile: "fst (getCanvasData (host loads) sampleOptions) = Some sampleTile"
proof -
  have "image sampleOptions = None"
    by (simp add: sampleOptions_def merge_image samples)
  then show ?thesis
    by (simp add: getCanvasData_text sampleTile_def)
qed

lemma pending_mount: "pending (exec e options (mount k) []) = 1"
  by (simp add: exec_def mount_def)

theorem one_active_observer_witness:
  "0 < pending (exec (host loads) sampleOptions (mount 1) []) \<and>
   fst (getCanvasData (host loads) sampleOptions) \<noteq> None \<and>
   map connected (observers (exec (host loads) sampleOptions (mount 1) [Resume])) = [True] \<and>
   active (exec (host loads) sampleOptions (mount 1) [Resume]) = 1 \<and>
   active (exec (host loads) sampleOptions (mount 1)
     [Resume, RemoveChild (Elem 1), Deliver 0, Resume]) = 1"
proof -
  have c: "map connected (observers (exec (host loads) sampleOptions (mount 1) [Resume])) = [True]"
    using one_active_observer [of "host loads" sampleOptions 1 "[]"] sample_tile
    by (simp add: pending_mount) (simp add: exec_def mount_def)
  then have a: "active (exec (host loads) sampleOptions (mount 1) [Resume]) = 1"
    by (simp add: active_flags)
  show ?thesis
    using one_active_observer [of "host loads" sampleOptions 1 "[Resume]"
        "[RemoveChild (Elem 1), Deliver 0, Resume]"] a c sample_tile
    by (simp add: pending_mount)
qed

subsection \<open>C10: a run does not trigger itself\<close>

lemma flagOf_appended: "flagOf w (appended n) = False"
  by (simp add: flagOf_def appended_def)

lemma flagOf_attributeOf: "flagOf w (attributeOf n) = (n = w)"
  by (simp add: flagOf_def attributeOf_def)

lemma flagOf_removed: "flagOf w (removed n) = (n = w)"
  by (simp add: flagOf_def removed_def)

lemma queues_after_render:
  assumes "observersOk st"
  shows "list_all (\<lambda>ob. queue ob = []) (observers (render e options t st))"
  using observers_render [OF assms, of e options t]
  by (simp add: list_all_iff disconnect_def)

lemma Deliver_empty:
  assumes "list_all (\<lambda>ob. queue ob = []) (observers st)"
  shows "exec e options st (map Deliver ds) = st"
proof -
  have "step e options st (Deliver i) = st" for i
    using assms by (simp add: step_def Let_def list_all_length)
  then show ?thesis
    unfolding exec_def by (induction ds) simp_all
qed

text \<open>
  C10: the records that a run's own changes produce, the appended node and the
  container's position, do not count as tampering for any overlay: an appended node is
  in no list of removed nodes, and the attribute record targets the container, which is
  no overlay. In an execution, right after a run has completed no observer holds a
  record, so delivering to any observers changes nothing and starts no further run: the
  number of waiting runs is the one before the run, less the run itself.
\<close>

theorem render_does_not_retrigger:
  assumes "0 < pending (exec e options (mount k) evs)"
    and "fst (getCanvasData e options) = Some t"
  shows "flagOf w (appended n) = False \<and> flagOf (Elem j) (attributeOf Container) = False \<and>
         list_all (\<lambda>ob. queue ob = []) (observers (exec e options (mount k) (evs @ [Resume]))) \<and>
         exec e options (mount k) (evs @ [Resume] @ map Deliver ds) =
           exec e options (mount k) (evs @ [Resume]) \<and>
         pending (exec e options (mount k) (evs @ [Resume] @ map Deliver ds)) =
           pending (exec e options (mount k) evs) - 1"
proof -
  let ?st = "exec e options (mount k) evs"
  have ok: "observersOk ?st"
    by (rule reachable_ok)
  have r: "exec e options (mount k) (evs @ [Resume]) =
      (render e options t ?st)\<lparr>pending := pending ?st - 1\<rparr>"
    using step_Resume [OF assms] by (simp add: exec_append exec_def [of _ _ _ "[Resume]"])
  have q: "list_all (\<lambda>ob. queue ob = []) (observers (exec e options (mount k) (evs @ [Resume])))"
    using queues_after_render [OF ok, of e options t] by (simp add: r)
  have d: "exec e options (mount k) (evs @ [Resume] @ map Deliver ds) =
      exec e options (mount k) (evs @ [Resume])"
    using Deliver_empty [OF q, of e options ds] by (simp add: exec_def)
  have p: "pending (exec e options (mount k) (evs @ [Resume])) = pending ?st - 1"
    by (simp add: r)
  show ?thesis
    using q d p by (simp only: flagOf_appended flagOf_attributeOf) simp
qed

theorem render_does_not_retrigger_witness:
  "0 < pending (exec (host loads) sampleOptions (mount 1) []) \<and>
   fst (getCanvasData (host loads) sampleOptions) = Some sampleTile \<and>
   exec (host loads) sampleOptions (mount 1) [Resume, Deliver 0, Deliver 1] =
     exec (host loads) sampleOptions (mount 1) [Resume] \<and>
   pending (exec (host loads) sampleOptions (mount 1) [Resume, Deliver 0, Deliver 1]) = 0"
proof -
  have h: "0 < pending (exec (host loads) sampleOptions (mount 1) [])"
    by (simp add: pending_mount)
  note r = render_does_not_retrigger [OF h sample_tile, where ds = "[0, 1]" and w = Container
      and n = Container and j = 0]
  have "exec (host loads) sampleOptions (mount 1) [Resume, Deliver 0, Deliver 1] =
      exec (host loads) sampleOptions (mount 1) [Resume]"
    using r by simp
  moreover have "pending (exec (host loads) sampleOptions (mount 1) [Resume, Deliver 0, Deliver 1]) = 0"
    using r by (auto simp add: pending_mount)
  ultimately show ?thesis
    using h sample_tile by blast
qed

subsection \<open>C2: what counts as tampering\<close>

lemma isChanged_iff:
  "isChanged w ms =
     (\<exists>m \<in> set ms. w \<in> set (removedNodes m) \<or> (mtype m = Attributes \<and> target m = w))"
  by (auto simp add: isChanged_def flagOf_def list_ex_iff)

lemma pending_Deliver:
  "pending (step e options st (Deliver i)) =
     (if i < length (observers st)
      then pending st + callback (watermarkDiv (observers st ! i)) (queue (observers st ! i))
      else pending st)"
  by (simp add: step_def Let_def callback_def isChanged_def)

lemma callback_Nil: "callback wm [] = 0"
  by (simp add: callback_def isChanged_def)

lemma Deliver_last:
  assumes "observers s = old @ [\<lparr>watermarkDiv = wm, connected = c, queue = q\<rparr>]"
    and "list_all idle old"
  shows "observers (step e options s (Deliver j)) =
           old @ [\<lparr>watermarkDiv = wm, connected = c, queue = (if j = length old then [] else q)\<rparr>] \<and>
         pending (step e options s (Deliver j)) =
           pending s + (if j = length old then callback wm q else 0) \<and>
         childNodes (step e options s (Deliver j)) = childNodes s \<and>
         nextId (step e options s (Deliver j)) = nextId s \<and>
         styleOf (step e options s (Deliver j)) = styleOf s"
proof (cases "j < length old")
  case True
  then have "queue ((old @ [\<lparr>watermarkDiv = wm, connected = c, queue = q\<rparr>]) ! j) = []"
    using assms(2) by (simp add: nth_append list_all_length idle_def)
  then show ?thesis
    using assms(1) True by (simp add: step_def Let_def)
next
  case False
  show ?thesis
  proof (cases "j = length old")
    case True
    then show ?thesis
      using assms(1) by (simp add: step_def Let_def callback_Nil)
  next
    case False
    with \<open>\<not> j < length old\<close> show ?thesis
      using assms(1) by (simp add: step_def)
  qed
qed

lemma Deliver_all:
  assumes "observers s = old @ [\<lparr>watermarkDiv = wm, connected = c, queue = q\<rparr>]"
    and "list_all idle old"
  shows "pending (exec e options s (map Deliver ds)) =
           pending s + (if length old \<in> set ds then callback wm q else 0) \<and>
         childNodes (exec e options s (map Deliver ds)) = childNodes s \<and>
         nextId (exec e options s (map Deliver ds)) = nextId s \<and>
         styleOf (exec e options s (map Deliver ds)) = styleOf s"
  using assms(1)
proof (induction ds arbitrary: s q)
  case Nil
  show ?case by (simp add: exec_def)
next
  case (Cons j ds)
  note d = Deliver_last [OF Cons.prems assms(2), of e options j]
  have "exec e options s (map Deliver (j # ds)) =
      exec e options (step e options s (Deliver j)) (map Deliver ds)"
    by (simp add: exec_def)
  then show ?case
    using Cons.IH [of "step e options s (Deliver j)" "if j = length old then [] else q"] d
    by (simp add: callback_Nil)
qed

lemma Mutate_all:
  assumes "observers s = old @ [\<lparr>watermarkDiv = wm, connected = True, queue = q\<rparr>]"
    and "list_all idle old"
  shows "observers (exec e options s (map Mutate ms)) =
           old @ [\<lparr>watermarkDiv = wm, connected = True, queue = q @ ms\<rparr>] \<and>
         pending (exec e options s (map Mutate ms)) = pending s"
  using assms(1)
proof (induction ms arbitrary: s q)
  case Nil
  then show ?case by (simp add: exec_def)
next
  case (Cons m ms)
  have o: "observers (step e options s (Mutate m)) =
      old @ [\<lparr>watermarkDiv = wm, connected = True, queue = q @ [m]\<rparr>]"
    using Cons.prems assms(2) by (simp add: step_def notify_def notify_idle)
  have p: "pending (step e options s (Mutate m)) = pending s"
    by (simp add: step_def notify_def)
  have "exec e options s (map Mutate (m # ms)) =
      exec e options (step e options s (Mutate m)) (map Mutate ms)"
    by (simp add: exec_def)
  then show ?case
    using Cons.IH [OF o] p by simp
qed

lemma after_run:
  assumes ok: "observersOk st0"
  shows "observers ((render e options t st0)\<lparr>pending := p\<rparr>) =
           map disconnect (observers st0) @
           [\<lparr>watermarkDiv = Elem (nextId st0), connected = True, queue = []\<rparr>] \<and>
         length (map disconnect (observers st0)) = length (observers st0) \<and>
         list_all idle (map disconnect (observers st0))"
  using observers_render [OF ok, of e options t] by (simp add: idle_map_disconnect)

lemma batch_after_run:
  assumes ok: "observersOk st0" and st: "st = (render e options t st0)\<lparr>pending := p\<rparr>"
  shows "pending (exec e options st (map Mutate ms @ map Deliver ds)) =
           pending st + (if length (observers st0) \<in> set ds then callback (Elem (nextId st0)) ms else 0)"
proof -
  note a = after_run [OF ok, where e = e and options = options and t = t and p = p]
  have o: "observers st = map disconnect (observers st0) @
      [\<lparr>watermarkDiv = Elem (nextId st0), connected = True, queue = []\<rparr>]"
    using a by (simp add: st)
  have i: "list_all idle (map disconnect (observers st0))"
    using a by simp
  note m = Mutate_all [OF o i, of e options ms]
  have o1: "observers (exec e options st (map Mutate ms)) = map disconnect (observers st0) @
      [\<lparr>watermarkDiv = Elem (nextId st0), connected = True, queue = ms\<rparr>]"
    using m by simp
  show ?thesis
    using Deliver_all [OF o1 i, of e options ds] m by (simp add: exec_append)
qed

lemma removal_after_run:
  assumes ok: "observersOk st0" and g: "fst (getCanvasData e options) = Some t"
    and st: "st = (render e options t st0)\<lparr>pending := p\<rparr>"
  shows "pending (exec e options st (RemoveChild (Elem (nextId st0)) # map Deliver ds)) =
           pending st + (if length (observers st0) \<in> set ds then 1 else 0) \<and>
         (length (observers st0) \<in> set ds \<longrightarrow>
            pending (exec e options st
              (RemoveChild (Elem (nextId st0)) # map Deliver ds @ [Resume])) = pending st \<and>
            overlayStyle (exec e options st
              (RemoveChild (Elem (nextId st0)) # map Deliver ds @ [Resume])) = overlayStyle st \<and>
            childNodes (exec e options st
              (RemoveChild (Elem (nextId st0)) # map Deliver ds @ [Resume])) =
              removeAll (Elem (nextId st0)) (childNodes st0) @ [Elem (Suc (nextId st0))])"
proof -
  let ?wm = "Elem (nextId st0)"
  let ?s1 = "step e options st (RemoveChild ?wm)"
  let ?s2 = "exec e options ?s1 (map Deliver ds)"
  note a = after_run [OF ok, where e = e and options = options and t = t and p = p]
  have i: "list_all idle (map disconnect (observers st0))"
    using a by simp
  have s1: "?s1 = notify (removed ?wm) (st\<lparr>childNodes := removeAll ?wm (childNodes st)\<rparr>)"
    by (simp add: step_def st render_fields)
  have o1: "observers ?s1 = map disconnect (observers st0) @
      [\<lparr>watermarkDiv = ?wm, connected = True, queue = [removed ?wm]\<rparr>]"
    unfolding s1 using a by (simp add: notify_def st connected_disconnect)
  have f1: "pending ?s1 = pending st" "childNodes ?s1 = removeAll ?wm (childNodes st0)"
    "nextId ?s1 = Suc (nextId st0)"
    unfolding s1 by (simp_all add: notify_def st render_fields)
  note d = Deliver_all [OF o1 i, of e options ds]
  have c: "callback ?wm [removed ?wm] = 1"
    by (simp add: callback_def isChanged_def flagOf_removed)
  have e1: "exec e options st (RemoveChild ?wm # map Deliver ds) = ?s2"
    by (simp add: exec_def)
  have e2: "exec e options st (RemoveChild ?wm # map Deliver ds @ [Resume]) =
      step e options ?s2 Resume"
    by (simp add: exec_def)
  have 1: "pending (exec e options st (RemoveChild ?wm # map Deliver ds)) =
      pending st + (if length (observers st0) \<in> set ds then 1 else 0)"
    using d a f1 c by (simp add: e1)
  have 2: "pending (step e options ?s2 Resume) = pending st \<and>
      overlayStyle (step e options ?s2 Resume) = overlayStyle st \<and>
      childNodes (step e options ?s2 Resume) =
        removeAll ?wm (childNodes st0) @ [Elem (Suc (nextId st0))]"
    if "length (observers st0) \<in> set ds"
  proof -
    have p2: "pending ?s2 = pending st + 1"
      using d a f1 c that by simp
    then have "step e options ?s2 Resume = (render e options t ?s2)\<lparr>pending := pending ?s2 - 1\<rparr>"
      using g by (simp add: step_Resume)
    then show ?thesis
      using p2 d f1 by (simp add: render_fields overlayStyle_def st)
  qed
  show ?thesis
    using 1 2 by (simp add: e2)
qed

lemma sibling_after_run:
  assumes ok: "observersOk st0" and n: "n \<noteq> Elem (nextId st0)"
    and st: "st = (render e options t st0)\<lparr>pending := p\<rparr>"
  shows "pending (exec e options st (RemoveChild n # map Deliver ds)) = pending st \<and>
         pending (exec e options st (SetStyle n v # map Deliver ds)) = pending st"
proof -
  let ?wm = "Elem (nextId st0)"
  note a = after_run [OF ok, where e = e and options = options and t = t and p = p]
  have i: "list_all idle (map disconnect (observers st0))"
    using a by simp
  have o1: "observers (step e options st (RemoveChild n)) = map disconnect (observers st0) @
      [\<lparr>watermarkDiv = ?wm, connected = True,
        queue = (if n \<in> set (childNodes st) then [removed n] else [])\<rparr>]"
    using a by (simp add: step_def notify_def st connected_disconnect)
  have p1: "pending (step e options st (RemoveChild n)) = pending st"
    by (simp add: step_def notify_def)
  have c1: "callback ?wm (if n \<in> set (childNodes st) then [removed n] else []) = 0"
    using n by (simp add: callback_def isChanged_def flagOf_removed)
  have 1: "pending (exec e options st (RemoveChild n # map Deliver ds)) = pending st"
    using Deliver_all [OF o1 i, of e options ds] p1 c1 by (simp add: exec_def)
  have o2: "observers (step e options st (SetStyle n v)) = map disconnect (observers st0) @
      [\<lparr>watermarkDiv = ?wm, connected = True, queue = [attributeOf n]\<rparr>]"
    using a by (simp add: step_def notify_def st connected_disconnect)
  have p2: "pending (step e options st (SetStyle n v)) = pending st"
    by (simp add: step_def notify_def)
  have c2: "callback ?wm [attributeOf n] = 0"
    using n by (simp add: callback_def isChanged_def flagOf_attributeOf)
  have 2: "pending (exec e options st (SetStyle n v # map Deliver ds)) = pending st"
    using Deliver_all [OF o2 i, of e options ds] p2 c2 by (simp add: exec_def)
  show ?thesis
    using 1 2 by simp
qed

text \<open>
  C2: the callback of an observer that watches the overlay \<open>w\<close> calls \<open>drawWatermark\<close>, once,
  exactly when some record of the batch has \<open>w\<close> among its removed nodes or is an
  attribute record with target \<open>w\<close>; delivering a batch adds that many waiting runs.
  For the component, after a run has completed in an execution, with overlay \<open>wm\<close> and
  observer \<open>i\<close>, and whatever observers \<open>ds\<close> the host then delivers to, the earlier ones
  included: a batch \<open>ms\<close> of changes under the container starts a run exactly when it is
  delivered to the current observer and counts as tampering with \<open>wm\<close>, and then one run;
  removing \<open>wm\<close> starts exactly one run, and when that run has completed the container
  ends with a new element whose style is the one \<open>wm\<close> was given; removing another node
  \<open>n\<close>, or setting the style of another node, an earlier overlay included, starts no
  run. The host is the same throughout, so the tile that arrived for the first run
  arrives again.
\<close>

theorem tamper_detection:
  fixes e options k evs
  defines "st0 \<equiv> exec e options (mount k) evs"
  defines "st \<equiv> exec e options (mount k) (evs @ [Resume])"
  defines "wm \<equiv> Elem (nextId (exec e options (mount k) evs))"
  defines "i \<equiv> length (observers (exec e options (mount k) evs))"
  assumes "0 < pending st0" and "fst (getCanvasData e options) = Some t"
  shows "isChanged w ms =
           (\<exists>m \<in> set ms. w \<in> set (removedNodes m) \<or> (mtype m = Attributes \<and> target m = w)) \<and>
         callback w ms = (if isChanged w ms then 1 else 0) \<and>
         pending (step e options s (Deliver j)) =
           (if j < length (observers s)
            then pending s + callback (watermarkDiv (observers s ! j)) (queue (observers s ! j))
            else pending s) \<and>
         last (childNodes st) = wm \<and> current st = Some i \<and>
         watermarkDiv (observers st ! i) = wm \<and>
         overlayStyle st = Some (wmStyle e options t) \<and>
         pending (exec e options st (map Mutate ms @ map Deliver ds)) =
           pending st + (if i \<in> set ds then callback wm ms else 0) \<and>
         pending (exec e options st (RemoveChild wm # map Deliver ds)) =
           pending st + (if i \<in> set ds then 1 else 0) \<and>
         (i \<in> set ds \<longrightarrow>
            pending (exec e options st (RemoveChild wm # map Deliver ds @ [Resume])) = pending st \<and>
            overlayStyle (exec e options st (RemoveChild wm # map Deliver ds @ [Resume])) =
              overlayStyle st \<and>
            childNodes (exec e options st (RemoveChild wm # map Deliver ds @ [Resume])) =
              removeAll wm (childNodes st0) @ [Elem (Suc (nextId st0))]) \<and>
         (n \<noteq> wm \<longrightarrow>
            pending (exec e options st (RemoveChild n # map Deliver ds)) = pending st \<and>
            pending (exec e options st (SetStyle n v # map Deliver ds)) = pending st)"
proof -
  have ok: "observersOk st0"
    unfolding st0_def by (rule reachable_ok)
  have r: "st = (render e options t st0)\<lparr>pending := pending st0 - 1\<rparr>"
    using step_Resume [OF assms(5,6)]
    by (simp add: st_def st0_def exec_append exec_def [of _ _ _ "[Resume]"])
  have o: "observers st = map disconnect (observers st0) @
      [\<lparr>watermarkDiv = wm, connected = True, queue = []\<rparr>]"
    using observers_render [OF ok, of e options t] by (simp add: r wm_def st0_def)
  have f: "last (childNodes st) = wm \<and> current st = Some i \<and>
      watermarkDiv (observers st ! i) = wm \<and> overlayStyle st = Some (wmStyle e options t)"
    using observers_render [OF ok, of e options t] o
    by (simp add: r render_fields wm_def i_def st0_def nth_append overlayStyle_def)
  show ?thesis
    using batch_after_run [OF ok r, of ms ds] removal_after_run [OF ok assms(6) r, of ds]
      sibling_after_run [OF ok _ r, of n ds v] f
    by (simp add: isChanged_iff callback_def pending_Deliver wm_def i_def st0_def)
qed

lemma rerender_state:
  "nextId (exec (host loads) sampleOptions (mount 1)
     [Resume, Mutate (attributeOf (Elem 1)), Deliver 0]) = 2 \<and>
   length (observers (exec (host loads) sampleOptions (mount 1)
     [Resume, Mutate (attributeOf (Elem 1)), Deliver 0])) = 1 \<and>
   pending (exec (host loads) sampleOptions (mount 1)
     [Resume, Mutate (attributeOf (Elem 1)), Deliver 0]) = 1"
  by (simp add: exec_def step_def mount_def drawWatermark_def sample_tile render_def Let_def
      notify_def disconnectCurrent_def callback_def isChanged_def flagOf_attributeOf)

theorem tamper_detection_witness:
  "0 < pending (exec (host loads) sampleOptions (mount 1)
     [Resume, Mutate (attributeOf (Elem 1)), Deliver 0]) \<and>
   fst (getCanvasData (host loads) sampleOptions) = Some sampleTile \<and>
   pending (exec (host loads) sampleOptions
      (exec (host loads) sampleOptions (mount 1)
        [Resume, Mutate (attributeOf (Elem 1)), Deliver 0, Resume])
      (SetStyle (Elem 1) ''x'' # map Deliver [0, 1])) = 0 \<and>
   pending (exec (host loads) sampleOptions
      (exec (host loads) sampleOptions (mount 1)
        [Resume, Mutate (attributeOf (Elem 1)), Deliver 0, Resume])
      (RemoveChild (Elem 2) # map Deliver [0, 1])) = 1"
proof -
  let ?evs = "[Resume, Mutate (attributeOf (Elem 1)), Deliver 0]"
  have h: "0 < pending (exec (host loads) sampleOptions (mount 1) ?evs)"
    using rerender_state by simp
  note t = tamper_detection [OF h sample_tile, where n = "Elem 1" and w = Container and ms = "[]"
      and s = "mount 0" and j = 0 and v = "''x''" and ds = "[0, 1]"]
  have e4: "exec (host loads) sampleOptions (mount 1) (?evs @ [Resume]) =
      step (host loads) sampleOptions (exec (host loads) sampleOptions (mount 1) ?evs) Resume"
    by (simp add: exec_def)
  have p: "pending (exec (host loads) sampleOptions (mount 1) (?evs @ [Resume])) = 0"
    unfolding e4 step_Resume [OF h sample_tile] using rerender_state by simp
  have a: "pending (exec (host loads) sampleOptions
      (exec (host loads) sampleOptions (mount 1) (?evs @ [Resume]))
      (SetStyle (Elem 1) ''x'' # map Deliver [0, 1])) = 0"
    using t p rerender_state by auto
  have b: "pending (exec (host loads) sampleOptions
      (exec (host loads) sampleOptions (mount 1) (?evs @ [Resume]))
      (RemoveChild (Elem 2) # map Deliver [0, 1])) = 1"
    using t p rerender_state by auto
  show ?thesis
    using h sample_tile a b by simp
qed

subsection \<open>C7 and C9: what the runs append\<close>

lemma below_Suc: "below k n \<Longrightarrow> below (Suc k) n"
  by (cases n) (simp_all add: below_def)

lemma idsOk_step:
  assumes "idsOk st"
  shows "idsOk (step e options st ev)"
proof -
  have up: "list_all (below (Suc (nextId st))) (childNodes st)"
    using assms by (simp add: idsOk_def list_all_iff below_Suc)
  show ?thesis
  proof (cases ev)
    case Resume
    then show ?thesis using assms up
      by (auto simp add: step_def drawWatermark_def idsOk_def render_fields below_def
          split: option.splits)
  next
    case (Deliver i)
    then show ?thesis using assms by (simp add: step_def Let_def idsOk_def)
  next
    case (RemoveChild n)
    then show ?thesis using assms by (simp add: step_def idsOk_def notify_def list_all_iff)
  next
    case (SetStyle n s)
    then show ?thesis using assms by (simp add: step_def idsOk_def notify_def)
  next
    case AppendChild
    then show ?thesis using up by (simp add: step_def idsOk_def notify_def below_def)
  next
    case (Mutate m)
    then show ?thesis using assms by (simp add: step_def idsOk_def notify_def)
  qed
qed

lemma idsOk_reachable: "idsOk (exec e options (mount k) evs)"
proof -
  have "idsOk st \<Longrightarrow> idsOk (exec e options st evs)" for st
    unfolding exec_def by (induction evs arbitrary: st) (simp_all add: idsOk_step)
  moreover have "idsOk (mount k)"
    by (simp add: idsOk_def mount_def list_all_iff below_def)
  ultimately show ?thesis by simp
qed

lemma fresh_overlay: "idsOk st \<Longrightarrow> Elem (nextId st) \<notin> set (childNodes st)"
  by (auto simp add: idsOk_def list_all_iff below_def)

text \<open>What a run that gets its tile does to the container.\<close>

lemma completed_run_appends_one:
  assumes "0 < pending (exec e options (mount k) evs)"
    and "fst (getCanvasData e options) = Some t"
  shows "childNodes (exec e options (mount k) (evs @ [Resume])) =
           childNodes (exec e options (mount k) evs) @
           [Elem (nextId (exec e options (mount k) evs))] \<and>
         Elem (nextId (exec e options (mount k) evs)) \<notin>
           set (childNodes (exec e options (mount k) evs)) \<and>
         position (exec e options (mount k) (evs @ [Resume])) = Some ''relative'' \<and>
         styleOf (exec e options (mount k) (evs @ [Resume])) =
           (styleOf (exec e options (mount k) evs))
             (Elem (nextId (exec e options (mount k) evs)) \<mapsto> wmStyle e options t)"
  using step_Resume [OF assms] fresh_overlay [OF idsOk_reachable, of e options k evs]
  by (simp add: exec_append exec_def [of _ _ _ "[Resume]"] render_fields)

text \<open>Two runs that get their tile give their overlays the same style.\<close>

lemma two_runs_same_content:
  assumes "fst (getCanvasData e options) = Some t"
  shows "childNodes (exec e options (st\<lparr>pending := 2\<rparr>) [Resume, Resume]) =
           childNodes st @ [Elem (nextId st), Elem (Suc (nextId st))] \<and>
         styleOf (exec e options (st\<lparr>pending := 2\<rparr>) [Resume, Resume]) (Elem (nextId st)) =
           Some (wmStyle e options t) \<and>
         styleOf (exec e options (st\<lparr>pending := 2\<rparr>) [Resume, Resume]) (Elem (Suc (nextId st))) =
           Some (wmStyle e options t)"
  using assms by (simp add: exec_def step_Resume render_fields)

text \<open>
  C7 says that every run appends exactly one new overlay as the container's last child
  and sets the container's position. A run whose image fails to load (the defect of C1)
  never gets that far: with the props \<open>badImage\<close> the container keeps its one child, its
  position stays unset, and the run keeps waiting, however often it is offered to
  resume. Every run that gets its tile does what C7 says (\<open>completed_run_appends_one\<close>).
\<close>

theorem image_error_appends_nothing:
  "childNodes (exec (host loads) (merge defaultOptions badImage) (mount 1) (replicate n Resume)) =
     [Elem 0] \<and>
   position (exec (host loads) (merge defaultOptions badImage) (mount 1) (replicate n Resume)) = None \<and>
   pending (exec (host loads) (merge defaultOptions badImage) (mount 1) (replicate n Resume)) = 1"
proof -
  have "image (merge defaultOptions badImage) = Some ''b.png''"
    by (simp add: merge_image samples)
  moreover have "loadImage (host loads) ''b.png'' = None"
    by (simp add: host_def loads_def)
  ultimately have "drawWatermark (host loads) (merge defaultOptions badImage) (mount 1) = None"
    by (simp add: drawWatermark_error)
  then show ?thesis
    by (simp add: Resume_suspended mount_def)
qed

text \<open>
  C9 says that for every options value two runs in the same host produce two overlays
  of identical content. With the props \<open>badImage\<close> two runs produce no overlay at all
  (the defect of C1), where the text props \<open>plainText\<close> give two. Whenever the tile
  arrives, the two overlays are distinct elements with the same style
  (\<open>two_runs_same_content\<close>).
\<close>

theorem image_error_twice_gives_no_overlay:
  "childNodes (exec (host loads) (merge defaultOptions badImage) ((mount 0)\<lparr>pending := 2\<rparr>)
     (replicate n Resume)) = [] \<and>
   overlayStyle (exec (host loads) (merge defaultOptions badImage) ((mount 0)\<lparr>pending := 2\<rparr>)
     (replicate n Resume)) = None \<and>
   childNodes (exec (host loads) sampleOptions ((mount 0)\<lparr>pending := 2\<rparr>) [Resume, Resume]) =
     [Elem 0, Elem 1]"
proof -
  have "image (merge defaultOptions badImage) = Some ''b.png''"
    by (simp add: merge_image samples)
  moreover have "loadImage (host loads) ''b.png'' = None"
    by (simp add: host_def loads_def)
  ultimately have "drawWatermark (host loads) (merge defaultOptions badImage)
      ((mount 0)\<lparr>pending := 2\<rparr>) = None"
    by (simp add: drawWatermark_error)
  then show ?thesis
    using two_runs_same_content [OF sample_tile, of "mount 0"]
    by (simp add: Resume_suspended overlayStyle_def) (simp add: mount_def)
qed

end
